theory Spec2Isabelle
  imports Complex_Main "HOL-Library.Log_Nat"
begin

section \<open>Errors and results\<close>

text \<open>
  The notebook raises Python exceptions; every one of them is a value here.
  \<^item> \<open>ConnectionError\<close>: \<open>requests.get\<close> could not complete the request.
  \<^item> \<open>AttributeError\<close>: a method is called on the \<open>None\<close> that \<open>find\<close> returned.
  \<^item> \<open>IndexError\<close>: a list is indexed out of range.
  \<^item> \<open>ColumnNotFoundError\<close>, \<open>InvalidOperationError\<close>, \<open>ComputeError\<close>: raised by the
    data-frame library (a column that does not exist; a strict cast that fails on a
    value, or a text operation on a column that holds no text; a null replacement
    value).
  \<^item> \<open>ModelError\<close>: the chat model call failed.
\<close>

datatype error =
    ConnectionError
  | AttributeError
  | IndexError
  | ColumnNotFoundError
  | InvalidOperationError
  | ComputeError
  | ModelError

section \<open>Strings\<close>

text \<open>
  Texts are \<open>string\<close>s: the bytes of their UTF-8 encoding, in which every ASCII
  character is one byte. \<open>strip_prefix p s\<close> is the rest of \<open>s\<close> after its prefix \<open>p\<close>;
  \<open>contains p s\<close> is Python's \<open>p in s\<close>; \<open>replace_first p v s\<close> replaces the leftmost
  occurrence of the literal \<open>p\<close> by \<open>v\<close>, which is what \<open>str.replace\<close> of the data-frame
  library does with a pattern that has no regular-expression operator (its parameter
  \<open>n\<close> is 1 when not given).
\<close>

fun strip_prefix :: "string \<Rightarrow> string \<Rightarrow> string option" where
  "strip_prefix [] s = Some s"
| "strip_prefix (p # ps) [] = None"
| "strip_prefix (p # ps) (c # cs) = (if p = c then strip_prefix ps cs else None)"

fun contains :: "string \<Rightarrow> string \<Rightarrow> bool" where
  "contains p [] = (p = [])"
| "contains p (c # cs) =
     (case strip_prefix p (c # cs) of Some r \<Rightarrow> True | None \<Rightarrow> contains p cs)"

fun replace_first :: "string \<Rightarrow> string \<Rightarrow> string \<Rightarrow> string" where
  "replace_first p v [] = (if p = [] then v else [])"
| "replace_first p v (c # cs) =
     (case strip_prefix p (c # cs) of
        Some r \<Rightarrow> v @ r
      | None \<Rightarrow> c # replace_first p v cs)"

section \<open>The page as the extractor reads it\<close>

text \<open>
  The parsed document is represented by what \<open>find_review\<close> asks of it: the result of
  each \<open>find\<close> is an option (\<open>None\<close> is Python's \<open>None\<close>), the result of each
  \<open>find_all\<close> is a list in document order, and a span of the profile meta block is its
  text as \<open>get_text(strip=True)\<close> returns it.
\<close>

record a_tag =
  a_text :: string
  a_href :: "string option"

record profile_info_tag =
  first_a :: "a_tag option"
  profile_meta :: "string list option"

record shelf_tag =
  rating_stars :: "string option option"

record article =
  profile_info :: "profile_info_tag option"
  shelf_status :: "shelf_tag option"
  formatted :: "string option"

record soup =
  h1_title :: "string option"
  contributor :: "string option"
  reviews_lists :: "article list list"

record response =
  status_code :: nat
  body :: soup

text \<open>The dictionaries that \<open>find_review\<close> builds.\<close>

record profile =
  name :: string
  link_profile :: "string option"
  an_author :: bool
  books :: "string option"
  reviews_amount :: string
  followers_amount :: string

record review =
  idx :: int
  profile_of :: profile
  rating :: "string option"
  content :: string

section \<open>find_review\<close>

text \<open>
  The four variables of the span loop. \<open>check_author\<close> is \<open>False\<close> (here \<open>None\<close>) or the
  text of a span.
\<close>

record meta_vars =
  check_author :: "string option"
  books_amount :: "string option"
  reviews_amount_v :: string
  followers_amount_v :: string

definition initial_vars :: meta_vars where
  "initial_vars =
     \<lparr>check_author = None, books_amount = None,
      reviews_amount_v = ''Not Found'', followers_amount_v = ''Not Found''\<rparr>"

text \<open>One pass of the loop body: an \<open>if\<close>/\<open>elif\<close> chain, so one branch at most runs.\<close>

definition classify_span :: "meta_vars \<Rightarrow> string \<Rightarrow> meta_vars" where
  "classify_span v span_text =
     (if contains ''books'' span_text then v\<lparr>books_amount := Some span_text\<rparr>
      else if contains ''reviews'' span_text then v\<lparr>reviews_amount_v := span_text\<rparr>
      else if contains ''followers'' span_text then v\<lparr>followers_amount_v := span_text\<rparr>
      else if contains ''Author'' span_text then v\<lparr>check_author := Some span_text\<rparr>
      else v)"

definition scan_spans :: "string list \<Rightarrow> meta_vars" where
  "scan_spans spans = foldl classify_span initial_vars spans"

text \<open>\<open>bool(check_author)\<close>: \<open>False\<close> stays false, a text is true unless empty.\<close>

definition py_bool :: "string option \<Rightarrow> bool" where
  "py_bool x = (case x of None \<Rightarrow> False | Some s \<Rightarrow> (case s of [] \<Rightarrow> False | c # cs \<Rightarrow> True))"

text \<open>
  The body of the \<open>try\<close>: \<open>find\<close> on a missing shelf status and \<open>get\<close> on a missing
  rating element raise; \<open>get\<close> on an element without the attribute returns \<open>None\<close>.
  The bare \<open>except\<close> turns every exception into the sentinel.
\<close>

definition rating_lookup :: "article \<Rightarrow> error + string option" where
  "rating_lookup i =
     (case shelf_status i of
        None \<Rightarrow> Inl AttributeError
      | Some sh \<Rightarrow>
          (case rating_stars sh of
             None \<Rightarrow> Inl AttributeError
           | Some aria_label \<Rightarrow> Inr aria_label))"

definition rating_given :: "article \<Rightarrow> string option" where
  "rating_given i =
     (case rating_lookup i of
        Inl e \<Rightarrow> Some ''No Rating Given''
      | Inr r \<Rightarrow> r)"

definition extract_card :: "nat \<Rightarrow> article \<Rightarrow> error + review" where
  "extract_card k i =
     (case profile_info i of
        None \<Rightarrow> Inl AttributeError
      | Some info \<Rightarrow>
          (case first_a info of
             None \<Rightarrow> Inl AttributeError
           | Some a \<Rightarrow>
               (case profile_meta info of
                  None \<Rightarrow> Inl AttributeError
                | Some spans \<Rightarrow>
                    (let v = scan_spans spans;
                         p = \<lparr>name = a_text a,
                              link_profile = a_href a,
                              an_author = py_bool (check_author v),
                              books = books_amount v,
                              reviews_amount = reviews_amount_v v,
                              followers_amount = followers_amount_v v\<rparr>;
                         rating_g = rating_given i
                     in (case formatted i of
                           None \<Rightarrow> Inl AttributeError
                         | Some c \<Rightarrow>
                             Inr \<lparr>idx = int k + 1, profile_of = p,
                                  rating = rating_g, content = c\<rparr>)))))"

text \<open>The \<open>for idx, i in enumerate(articles)\<close> loop, from position \<open>k\<close> on.\<close>

fun extract_cards :: "nat \<Rightarrow> article list \<Rightarrow> error + review list" where
  "extract_cards k [] = Inr []"
| "extract_cards k (i # rest) =
     (case extract_card k i of
        Inl e \<Rightarrow> Inl e
      | Inr data \<Rightarrow>
          (case extract_cards (Suc k) rest of
             Inl e \<Rightarrow> Inl e
           | Inr all_reviews \<Rightarrow> Inr (data # all_reviews)))"

text \<open>
  \<open>requests.get\<close> is the parameter \<open>get\<close>: it raises or returns a response, whose body
  stands for the document that the HTML parser builds from it. The status code is
  never read.
\<close>

definition find_review ::
  "(string \<Rightarrow> error + response) \<Rightarrow> string \<Rightarrow> error + (string \<times> string \<times> review list)" where
  "find_review get url =
     (case get url of
        Inl e \<Rightarrow> Inl e
      | Inr resp \<Rightarrow>
          (case h1_title (body resp) of
             None \<Rightarrow> Inl AttributeError
           | Some title \<Rightarrow>
               (case contributor (body resp) of
                  None \<Rightarrow> Inl AttributeError
                | Some author \<Rightarrow>
                    (case reviews_lists (body resp) of
                       [] \<Rightarrow> Inl IndexError
                     | [l0] \<Rightarrow> Inl IndexError
                     | l0 # reviews_tag # ls \<Rightarrow>
                         (case extract_cards 0 reviews_tag of
                            Inl e \<Rightarrow> Inl e
                          | Inr all_reviews \<Rightarrow> Inr (title, author, all_reviews))))))"

section \<open>Numbers in texts\<close>

text \<open>
  The texts are taken to hold no decimal digit other than the ASCII digits, so that the
  class \<open>\d\<close> of the regular expressions is the class of those.
\<close>

definition is_digit :: "char \<Rightarrow> bool" where
  "is_digit c = (c \<in> set ''0123456789'')"

text \<open>
  The class \<open>\s\<close> of the regular expressions is aware of Unicode: it holds every
  character with the property White_Space. \<open>white_space\<close> lists their encodings:
  U+0009 to U+000D, U+0020, U+0085, U+00A0, U+1680, U+2000 to U+200A, U+2028, U+2029,
  U+202F, U+205F and U+3000. \<open>space_width s\<close> is the number of bytes of the white-space
  character at the start of \<open>s\<close>, or 0 when there is none; \<open>skip_spaces\<close> drops the
  longest run of such characters, as the greedy \<open>\s+\<close> takes it.
\<close>

definition white_space :: "string list" where
  "white_space =
     [[CHR 0x09], [CHR 0x0A], [CHR 0x0B], [CHR 0x0C], [CHR 0x0D], [CHR 0x20],
      [CHR 0xC2, CHR 0x85], [CHR 0xC2, CHR 0xA0],
      [CHR 0xE1, CHR 0x9A, CHR 0x80],
      [CHR 0xE2, CHR 0x80, CHR 0x80], [CHR 0xE2, CHR 0x80, CHR 0x81],
      [CHR 0xE2, CHR 0x80, CHR 0x82], [CHR 0xE2, CHR 0x80, CHR 0x83],
      [CHR 0xE2, CHR 0x80, CHR 0x84], [CHR 0xE2, CHR 0x80, CHR 0x85],
      [CHR 0xE2, CHR 0x80, CHR 0x86], [CHR 0xE2, CHR 0x80, CHR 0x87],
      [CHR 0xE2, CHR 0x80, CHR 0x88], [CHR 0xE2, CHR 0x80, CHR 0x89],
      [CHR 0xE2, CHR 0x80, CHR 0x8A],
      [CHR 0xE2, CHR 0x80, CHR 0xA8], [CHR 0xE2, CHR 0x80, CHR 0xA9],
      [CHR 0xE2, CHR 0x80, CHR 0xAF], [CHR 0xE2, CHR 0x81, CHR 0x9F],
      [CHR 0xE3, CHR 0x80, CHR 0x80]]"

definition starts_with :: "string \<Rightarrow> string \<Rightarrow> bool" where
  "starts_with p s = (case strip_prefix p s of None \<Rightarrow> False | Some r \<Rightarrow> True)"

definition space_width :: "string \<Rightarrow> nat" where
  "space_width s =
     (case filter (\<lambda>p. starts_with p s) white_space of
        [] \<Rightarrow> 0
      | p # ps \<Rightarrow> length p)"

function skip_spaces :: "string \<Rightarrow> string" where
  "skip_spaces s = (if space_width s = 0 then s else skip_spaces (drop (space_width s) s))"
  by pat_completeness auto
termination
proof (relation "measure length")
  show "wf (measure length)" by simp
next
  fix s :: string
  assume w: "space_width s \<noteq> 0"
  have "space_width [] = 0"
    by (simp add: space_width_def white_space_def starts_with_def)
  with w have "s \<noteq> []" by auto
  with w show "(drop (space_width s) s, s) \<in> measure length"
    by simp
qed

declare skip_spaces.simps [simp del]

definition digit_val :: "char \<Rightarrow> int" where
  "digit_val c = of_char c - 48"

definition digit_char :: "int \<Rightarrow> char" where
  "digit_char d = ''0123456789'' ! nat d"

text \<open>The value of a run of decimal digits, most significant first.\<close>

definition dec_val :: "string \<Rightarrow> int" where
  "dec_val ds = foldl (\<lambda>a c. 10 * a + digit_val c) 0 ds"

text \<open>
  The decimal numeral of an integer that is not negative, and the text that a cast of
  an integer to a text writes.
\<close>

function digits_of :: "int \<Rightarrow> string" where
  "digits_of n =
     (if n < 10 then [digit_char n] else digits_of (n div 10) @ [digit_char (n mod 10)])"
  by pat_completeness auto
termination
  by (relation "measure nat") auto

declare digits_of.simps [simp del]

definition i32_to_str :: "int \<Rightarrow> string" where
  "i32_to_str n = (if n < 0 then CHR ''-'' # digits_of (- n) else digits_of n)"

text \<open>
  The cast of a text to \<open>Int32\<close>: an optional sign, then digits only, and a value of 32
  bits; \<open>None\<close> is a text that does not parse. Spaces, commas and letters never parse.
\<close>

definition digits_to_int :: "string \<Rightarrow> int option" where
  "digits_to_int ds =
     (case ds of
        [] \<Rightarrow> None
      | c # cs \<Rightarrow> if list_all is_digit ds then Some (dec_val ds) else None)"

definition in_i32 :: "int \<Rightarrow> bool" where
  "in_i32 n = (- 2147483648 \<le> n \<and> n \<le> 2147483647)"

definition str_to_i32 :: "string \<Rightarrow> int option" where
  "str_to_i32 s =
     (let r = (case s of
                 [] \<Rightarrow> None
               | c # cs \<Rightarrow>
                   if c = CHR ''-'' then map_option uminus (digits_to_int cs)
                   else if c = CHR ''+'' then digits_to_int cs
                   else digits_to_int s)
      in case r of None \<Rightarrow> None | Some n \<Rightarrow> if in_i32 n then Some n else None)"

section \<open>The regular expressions of review_cleaning\<close>

text \<open>
  \<open>match_number s\<close> matches \<open>\d+(?:\.\d+)?\<close> at the start of \<open>s\<close> and returns the match
  and the rest. Each repetition is greedy, and a shorter choice is always followed by a
  digit or by the dot, so that giving characters back never helps a later part of a
  pattern of this notebook: one attempt per start position decides.
\<close>

definition match_number :: "string \<Rightarrow> (string \<times> string) option" where
  "match_number s =
     (let ds = takeWhile is_digit s; r = dropWhile is_digit s
      in case ds of
           [] \<Rightarrow> None
         | d # ds' \<Rightarrow>
             (case r of
                [] \<Rightarrow> Some (ds, r)
              | c # r' \<Rightarrow>
                  if c = CHR ''.'' then
                    (case takeWhile is_digit r' of
                       [] \<Rightarrow> Some (ds, r)
                     | f # fs \<Rightarrow> Some (ds @ c # f # fs, dropWhile is_digit r'))
                  else Some (ds, r)))"

text \<open>\<open>(\d+(?:\.\d+)?)[kK]\s+followers\<close> at the start of \<open>s\<close>: the rest after the match.\<close>

definition match_k_followers :: "string \<Rightarrow> string option" where
  "match_k_followers s =
     (case match_number s of
        None \<Rightarrow> None
      | Some (num, r) \<Rightarrow>
          (case r of
             [] \<Rightarrow> None
           | k # r' \<Rightarrow>
               if k = CHR ''k'' \<or> k = CHR ''K'' then
                 (if space_width r' = 0 then None
                  else strip_prefix ''followers'' (skip_spaces r'))
               else None))"

text \<open>Replacing the leftmost match of that pattern by \<open>v\<close>.\<close>

fun replace_k_followers :: "string \<Rightarrow> string \<Rightarrow> string" where
  "replace_k_followers v [] = []"
| "replace_k_followers v (c # cs) =
     (case match_k_followers (c # cs) of
        Some r \<Rightarrow> v @ r
      | None \<Rightarrow> c # replace_k_followers v cs)"

text \<open>\<open>str.extract(r'(\d+(?:\.\d+)?)', group_index=1)\<close>: the leftmost number, or null.\<close>

definition extract_number :: "string \<Rightarrow> string option" where
  "extract_number s = map_option fst (match_number (dropWhile (\<lambda>c. \<not> is_digit c) s))"

text \<open>\<open>Rating (\d+) out of\<close> at the start of \<open>s\<close>: the digits of the group.\<close>

definition match_rating :: "string \<Rightarrow> string option" where
  "match_rating s =
     (case strip_prefix ''Rating '' s of
        None \<Rightarrow> None
      | Some r \<Rightarrow>
          (case takeWhile is_digit r of
             [] \<Rightarrow> None
           | d # ds \<Rightarrow>
               (case strip_prefix '' out of'' (dropWhile is_digit r) of
                  None \<Rightarrow> None
                | Some r' \<Rightarrow> Some (d # ds))))"

fun extract_rating :: "string \<Rightarrow> string option" where
  "extract_rating [] = None"
| "extract_rating (c # cs) =
     (case match_rating (c # cs) of
        Some g \<Rightarrow> Some g
      | None \<Rightarrow> extract_rating cs)"

section \<open>Double precision\<close>

text \<open>
  \<open>Float64\<close> values that occur here are never negative: a finite one is the rational
  it denotes. \<open>f64_round\<close> rounds a non-negative rational to the nearest double, ties to
  the even significand: in the binade \<open>2 ^ e\<close> the doubles are the multiples of
  \<open>2 ^ (e - 52)\<close>, below \<open>2 ^ -1022\<close> those of \<open>2 ^ -1074\<close>. A result of \<open>2 ^ 1024\<close> or more
  is infinite: the binade lies beyond 1023, or the significand reaches \<open>2 ^ 53\<close> in
  binade 1023. Parsing a decimal numeral and multiplying both round this way.
\<close>

datatype f64 = Finite rat | Infinity

definition pow2 :: "int \<Rightarrow> rat" where
  "pow2 e = (if 0 \<le> e then 2 ^ nat e else 1 / 2 ^ nat (- e))"

definition log2_floor :: "rat \<Rightarrow> int" where
  "log2_floor q =
     (let a = fst (quotient_of q); b = snd (quotient_of q);
          d = bitlen a - bitlen b
      in if pow2 d \<le> q then d else d - 1)"

definition round_half_even :: "rat \<Rightarrow> int" where
  "round_half_even q =
     (let f = \<lfloor>q\<rfloor>; d = q - of_int f
      in if d < 1 / 2 then f
         else if 1 / 2 < d then f + 1
         else if even f then f else f + 1)"

definition f64_round :: "rat \<Rightarrow> f64" where
  "f64_round q =
     (if q = 0 then Finite 0
      else
        (let e = max (log2_floor q) (- 1022);
             u = pow2 (e - 52);
             m = round_half_even (q / u)
         in if 1023 < e \<or> (e = 1023 \<and> 2 ^ 53 \<le> m) then Infinity
            else Finite (of_int m * u)))"

text \<open>The cast of a text \<open>digits\<close> or \<open>digits.digits\<close> to \<open>Float64\<close>.\<close>

definition decimal_value :: "string \<Rightarrow> rat" where
  "decimal_value s =
     (let ip = takeWhile is_digit s; fp = drop 1 (dropWhile is_digit s)
      in of_int (dec_val ip) + of_int (dec_val fp) / 10 ^ length fp)"

definition str_to_f64 :: "string \<Rightarrow> f64" where
  "str_to_f64 s = f64_round (decimal_value s)"

definition f64_mul_1000 :: "f64 \<Rightarrow> f64" where
  "f64_mul_1000 x = (case x of Infinity \<Rightarrow> Infinity | Finite a \<Rightarrow> f64_round (a * 1000))"

text \<open>The cast to \<open>Int32\<close> drops the fraction; \<open>None\<close> is a value that does not fit.\<close>

definition f64_to_i32 :: "f64 \<Rightarrow> int option" where
  "f64_to_i32 x =
     (case x of
        Infinity \<Rightarrow> None
      | Finite a \<Rightarrow> if in_i32 \<lfloor>a\<rfloor> then Some \<lfloor>a\<rfloor> else None)"

section \<open>review_cleaning\<close>

text \<open>
  The data frame is handled column by column, a cell being \<open>None\<close> when it is null.
  A strict cast fails as a whole as soon as one value that is not null does not convert.
\<close>

definition converts :: "('a \<Rightarrow> 'b option) \<Rightarrow> 'a option \<Rightarrow> bool" where
  "converts f x =
     (case x of
        None \<Rightarrow> True
      | Some a \<Rightarrow> (case f a of None \<Rightarrow> False | Some b \<Rightarrow> True))"

definition cast_strict :: "('a \<Rightarrow> 'b option) \<Rightarrow> 'a option list \<Rightarrow> error + 'b option list" where
  "cast_strict f col =
     (if list_all (converts f) col then Inr (map (\<lambda>x. Option.bind x f) col)
      else Inl InvalidOperationError)"

text \<open>The chain of replacements on \<open>Reviews Amount\<close>, each on the leftmost occurrence.\<close>

definition reviews_text :: "string \<Rightarrow> string" where
  "reviews_text s =
     replace_first ''NotFound'' ''0''
       (replace_first '','' []
          (replace_first '' '' []
             (replace_first ''review'' []
                (replace_first ''reviews'' [] s))))"

definition reviews_column :: "string list \<Rightarrow> error + int option list" where
  "reviews_column col = cast_strict str_to_i32 (map (\<lambda>s. Some (reviews_text s)) col)"

text \<open>
  The replacement value of the first \<open>str.replace\<close> on \<open>Followers Amount\<close> is itself a
  column: the leftmost number of the cell, as a double, times 1000, cast to \<open>Int32\<close>,
  and written as a text since it replaces part of a text. It is computed for every
  cell, also for those the pattern does not match, and is null where the cell holds
  no digit.
\<close>

definition thousands :: "string \<Rightarrow> f64 option" where
  "thousands s = map_option (\<lambda>n. f64_mul_1000 (str_to_f64 n)) (extract_number s)"

definition replacement_values :: "string list \<Rightarrow> error + string option list" where
  "replacement_values col =
     (case cast_strict f64_to_i32 (map thousands col) of
        Inl e \<Rightarrow> Inl e
      | Inr ints \<Rightarrow> Inr (map (map_option i32_to_str) ints))"

text \<open>
  \<open>str.replace\<close> with a column of values pairs each cell with its value. Where the
  value is null the cell is left as it is: the value is null only for a cell without
  a digit, which the pattern cannot match. (Releases of the library up to 1.33 made
  such a cell null instead.) A column of exactly one value is taken as one value for
  the whole column, and that value must not be null.
\<close>

definition replace_with_values :: "string list \<Rightarrow> string option list \<Rightarrow> error + string option list" where
  "replace_with_values col vals =
     (case vals of
        [] \<Rightarrow> Inr []
      | [v] \<Rightarrow>
          (case v of
             None \<Rightarrow> Inl ComputeError
           | Some x \<Rightarrow> Inr (map (\<lambda>s. Some (replace_k_followers x s)) col))
      | v # w # vs \<Rightarrow>
          Inr (map (\<lambda>(s, y). case y of None \<Rightarrow> Some s | Some x \<Rightarrow> Some (replace_k_followers x s))
                 (zip col vals)))"

definition followers_text :: "string \<Rightarrow> string" where
  "followers_text s =
     replace_first '','' []
       (replace_first '' '' []
          (replace_first ''follower'' []
             (replace_first ''followers'' [] s)))"

definition followers_column :: "string list \<Rightarrow> error + int option list" where
  "followers_column col =
     (case replacement_values col of
        Inl e \<Rightarrow> Inl e
      | Inr vals \<Rightarrow>
          (case replace_with_values col vals of
             Inl e \<Rightarrow> Inl e
           | Inr replaced \<Rightarrow> cast_strict str_to_i32 (map (map_option followers_text) replaced)))"

text \<open>
  \<open>Rating\<close> holds \<open>None\<close> where the rating element had no label. A column built from
  \<open>None\<close> alone is not a column of texts, and \<open>str.extract\<close> on it is an invalid
  operation.
\<close>

definition rating_column :: "string option list \<Rightarrow> error + int option list" where
  "rating_column col =
     (if list_all Option.is_none col then Inl InvalidOperationError
      else cast_strict str_to_i32 (map (\<lambda>x. Option.bind x extract_rating) col))"

text \<open>A row of the cleaned frame: the columns that are left.\<close>

record cleaned_row =
  c_name :: string
  c_reviews :: "int option"
  c_followers :: "int option"
  c_rating :: "int option"
  c_content :: string

definition cleaned :: "review \<times> int option \<times> int option \<times> int option \<Rightarrow> cleaned_row" where
  "cleaned t =
     (case t of (d, r, f, g) \<Rightarrow>
        \<lparr>c_name = name (profile_of d), c_reviews = r, c_followers = f,
         c_rating = g, c_content = content d\<rparr>)"

text \<open>
  A frame built from the empty list has no column, so \<open>unnest\<close> fails on it. The three
  expressions of \<open>with_columns\<close> are taken in the order they are written.
\<close>

definition review_cleaning :: "review list \<Rightarrow> error + cleaned_row list" where
  "review_cleaning review =
     (case review of
        [] \<Rightarrow> Inl ColumnNotFoundError
      | d # ds \<Rightarrow>
          (case reviews_column (map (\<lambda>d. reviews_amount (profile_of d)) review) of
             Inl e \<Rightarrow> Inl e
           | Inr rs \<Rightarrow>
               (case followers_column (map (\<lambda>d. followers_amount (profile_of d)) review) of
                  Inl e \<Rightarrow> Inl e
                | Inr fs \<Rightarrow>
                    (case rating_column (map rating review) of
                       Inl e \<Rightarrow> Inl e
                     | Inr gs \<Rightarrow> Inr (map cleaned (zip review (zip rs (zip fs gs))))))))"

text \<open>
  The value that the three computed columns hold in one row when the cleaning succeeds,
  as a function of the raw value of that row alone.
\<close>

definition reviews_cell :: "string \<Rightarrow> int option" where
  "reviews_cell s = str_to_i32 (reviews_text s)"

definition followers_cell :: "string \<Rightarrow> int option" where
  "followers_cell s =
     (case thousands s of
        None \<Rightarrow> str_to_i32 (followers_text s)
      | Some x \<Rightarrow>
          (case f64_to_i32 x of
             None \<Rightarrow> None
           | Some n \<Rightarrow> str_to_i32 (followers_text (replace_k_followers (i32_to_str n) s))))"

definition rating_cell :: "string option \<Rightarrow> int option" where
  "rating_cell g = Option.bind (Option.bind g extract_rating) str_to_i32"

section \<open>extract_content\<close>

text \<open>
  \<open>str.join\<close> gives a column of one row: the cells joined by the delimiter, the empty
  text for a column of no row. \<open>content[0]\<close> reads that row.
\<close>

fun join_with :: "string \<Rightarrow> string list \<Rightarrow> string" where
  "join_with sep [] = []"
| "join_with sep [x] = x"
| "join_with sep (x # y # ys) = x @ sep @ join_with sep (y # ys)"

definition str_join :: "string \<Rightarrow> string list \<Rightarrow> string list" where
  "str_join sep col = [join_with sep col]"

definition extract_content :: "cleaned_row list \<Rightarrow> error + string" where
  "extract_content df =
     (case str_join [CHR 0x0A] (map c_content df) of
        [] \<Rightarrow> Inl IndexError
      | c # cs \<Rightarrow> Inr c)"

text \<open>
  Splitting a text at every occurrence of a character, as the specification's round
  trip does (Python's \<open>str.split\<close> with a separator of one character).
\<close>

fun split_on :: "char \<Rightarrow> string \<Rightarrow> string list" where
  "split_on sep [] = [[]]"
| "split_on sep (c # cs) =
     (if c = sep then [] # split_on sep cs
      else (case split_on sep cs of
              [] \<Rightarrow> [[c]]
            | w # ws \<Rightarrow> (c # w) # ws))"

section \<open>The run of the notebook\<close>

text \<open>
  The chat model is the parameter \<open>invoke\<close>, which receives the two messages. The last
  four cells call the four functions in turn; a cell that raises stops the run. The
  result holds the cells that were run and the outcome.
\<close>

definition llm_summarise ::
  "((string \<times> string) list \<Rightarrow> error + string) \<Rightarrow> string \<Rightarrow> string \<Rightarrow> error + string" where
  "llm_summarise invoke system_prompt c = invoke [(''system'', system_prompt), (''human'', c)]"

datatype cell = Cell_find_review | Cell_review_cleaning | Cell_extract_content | Cell_llm_summarise

definition run_all ::
  "(string \<Rightarrow> error + response) \<Rightarrow> ((string \<times> string) list \<Rightarrow> error + string) \<Rightarrow> string
     \<Rightarrow> string \<Rightarrow> cell list \<times> (error + string)" where
  "run_all get invoke system_prompt url =
     (case find_review get url of
        Inl e \<Rightarrow> ([Cell_find_review], Inl e)
      | Inr (title, author, review) \<Rightarrow>
          (case review_cleaning review of
             Inl e \<Rightarrow> ([Cell_find_review, Cell_review_cleaning], Inl e)
           | Inr df \<Rightarrow>
               (case extract_content df of
                  Inl e \<Rightarrow> ([Cell_find_review, Cell_review_cleaning, Cell_extract_content], Inl e)
                | Inr c \<Rightarrow>
                    ([Cell_find_review, Cell_review_cleaning, Cell_extract_content,
                      Cell_llm_summarise],
                     llm_summarise invoke system_prompt c))))"

section \<open>Well-formed cards and a sample page\<close>

text \<open>
  A card is well formed when every element that \<open>find_review\<close> dereferences without a
  guard is there: the profile section, its link, its meta block and the review body.
\<close>

definition well_formed_card :: "article \<Rightarrow> bool" where
  "well_formed_card i =
     (case profile_info i of
        None \<Rightarrow> False
      | Some info \<Rightarrow>
          (case first_a info of
             None \<Rightarrow> False
           | Some a \<Rightarrow>
               (case profile_meta info of
                  None \<Rightarrow> False
                | Some spans \<Rightarrow> (case formatted i of None \<Rightarrow> False | Some c \<Rightarrow> True))))"

text \<open>
  The page of the specification's end-to-end scenario: two cards in the second list,
  Alice with three meta spans and a rating, Bob with one span and no rating control.
  \<open>alice_four\<close> is Alice's card with a rating of four stars. \<open>serve\<close> is a transport
  that answers every request with the given status and page.
\<close>

definition alice :: article where
  "alice =
     \<lparr>profile_info =
        Some \<lparr>first_a = Some \<lparr>a_text = ''Alice'', a_href = Some ''/user/show/1''\<rparr>,
              profile_meta = Some [''102 books'', ''5 reviews'', ''1.2k followers'']\<rparr>,
      shelf_status = Some \<lparr>rating_stars = Some (Some ''Rating 5 out of 5'')\<rparr>,
      formatted = Some ''Loved the pacing.''\<rparr>"

definition bob :: article where
  "bob =
     \<lparr>profile_info =
        Some \<lparr>first_a = Some \<lparr>a_text = ''Bob'', a_href = Some ''/user/show/2''\<rparr>,
              profile_meta = Some [''3 followers'']\<rparr>,
      shelf_status = None,
      formatted = Some ''Characters felt flat.''\<rparr>"

definition alice_four :: article where
  "alice_four =
     alice\<lparr>shelf_status := Some \<lparr>rating_stars = Some (Some ''Rating 4 out of 5'')\<rparr>\<rparr>"

definition sample_page :: soup where
  "sample_page =
     \<lparr>h1_title = Some ''A Book'', contributor = Some ''An Author'',
      reviews_lists = [[], [alice, bob]]\<rparr>"

definition serve :: "nat \<Rightarrow> soup \<Rightarrow> string \<Rightarrow> error + response" where
  "serve status page = (\<lambda>url. Inr \<lparr>status_code = status, body = page\<rparr>)"

text \<open>What \<open>find_review\<close> extracts from the two cards.\<close>

definition sample_reviews :: "review list" where
  "sample_reviews =
     [\<lparr>idx = 1,
       profile_of = \<lparr>name = ''Alice'', link_profile = Some ''/user/show/1'', an_author = False,
                     books = Some ''102 books'', reviews_amount = ''5 reviews'',
                     followers_amount = ''1.2k followers''\<rparr>,
       rating = Some ''Rating 5 out of 5'', content = ''Loved the pacing.''\<rparr>,
      \<lparr>idx = 2,
       profile_of = \<lparr>name = ''Bob'', link_profile = Some ''/user/show/2'', an_author = False,
                     books = None, reviews_amount = ''Not Found'',
                     followers_amount = ''3 followers''\<rparr>,
       rating = Some ''No Rating Given'', content = ''Characters felt flat.''\<rparr>]"

text \<open>A raw review with the given counts and rating, for examples of the cleaning.\<close>

definition raw_review :: "string \<Rightarrow> string \<Rightarrow> string option \<Rightarrow> review" where
  "raw_review r f g =
     \<lparr>idx = 1,
      profile_of = \<lparr>name = ''Reader'', link_profile = None, an_author = False, books = None,
                    reviews_amount = r, followers_amount = f\<rparr>,
      rating = g, content = ''Text''\<rparr>"

definition unrated :: "string option" where
  "unrated = Some ''No Rating Given''"

text \<open>A frame of four raw reviews with the example values of the specification.\<close>

definition example_frame :: "review list" where
  "example_frame =
     [raw_review ''1,234 reviews'' ''1.5k followers'' (Some ''Rating 4 out of 5''),
      raw_review ''12 reviews'' ''250 followers'' (Some ''No Rating Given''),
      raw_review ''1 review'' ''1 follower'' None,
      raw_review ''Not Found'' ''1,234 followers'' (Some ''Rating 5 out of 5'')]"

section \<open>Properties of the extractor\<close>

subsection \<open>Span classification\<close>







text \<open>
  Claim C2, as amended. The loop body is an \<open>if\<close>/\<open>elif\<close> chain over ``books'',
  ``reviews'', ``followers'', ``Author'' in that order: for a span whose text contains
  several of these words, only the first of them in that order takes effect and the
  other variables keep their values.
\<close>

theorem classify_span_first_match:
  "(contains ''books'' t \<longrightarrow> classify_span v t = v\<lparr>books_amount := Some t\<rparr>) \<and>
   (\<not> contains ''books'' t \<and> contains ''reviews'' t \<longrightarrow>
      classify_span v t = v\<lparr>reviews_amount_v := t\<rparr>) \<and>
   (\<not> contains ''books'' t \<and> \<not> contains ''reviews'' t \<and> contains ''followers'' t \<longrightarrow>
      classify_span v t = v\<lparr>followers_amount_v := t\<rparr>) \<and>
   (\<not> contains ''books'' t \<and> \<not> contains ''reviews'' t \<and> \<not> contains ''followers'' t \<and>
    contains ''Author'' t \<longrightarrow> classify_span v t = v\<lparr>check_author := Some t\<rparr>)"
  by (simp add: classify_span_def)

theorem classify_span_first_match_witness:
  "contains ''books'' ''books reviews'' \<and>
   classify_span initial_vars ''books reviews'' = initial_vars\<lparr>books_amount := Some ''books reviews''\<rparr> \<and>
   \<not> contains ''books'' ''9 reviews followers'' \<and> contains ''reviews'' ''9 reviews followers'' \<and>
   classify_span initial_vars ''9 reviews followers'' =
     initial_vars\<lparr>reviews_amount_v := ''9 reviews followers''\<rparr>"
  using classify_span_first_match [of "''books reviews''" initial_vars]
    classify_span_first_match [of "''9 reviews followers''" initial_vars]
  by simp

text \<open>
  Claim C2 as stated fails: the span text ``books reviews'' contains both ``books'' and
  ``reviews'', yet only the books variable is set and the reviews variable keeps its
  default, so the later branch has not taken effect.
\<close>

theorem last_match_wins_counterexample:
  "contains ''books'' ''books reviews'' \<and> contains ''reviews'' ''books reviews'' \<and>
   reviews_amount_v (scan_spans [''books reviews'']) = ''Not Found'' \<and>
   books_amount (scan_spans [''books reviews'']) = Some ''books reviews''"
  by (simp add: scan_spans_def classify_span_def initial_vars_def)



subsection \<open>Index\<close>

lemma extract_card_idx: "extract_card k i = Inr d \<Longrightarrow> idx d = int k + 1"
  by (auto simp: extract_card_def Let_def split: option.splits)

lemma extract_cards_idx:
  "extract_cards k cards = Inr rs \<Longrightarrow>
   length rs = length cards \<and> map idx rs = map (\<lambda>j. int j + 1) [k ..< k + length cards]"
proof (induction cards arbitrary: k rs)
  case Nil
  then show ?case by simp
next
  case (Cons i rest)
  from Cons.prems obtain d ds where d: "extract_card k i = Inr d"
    and ds: "extract_cards (Suc k) rest = Inr ds" and rs: "rs = d # ds"
    by (auto split: sum.splits)
  from Cons.IH [OF ds] have "length ds = length rest"
    and "map idx ds = map (\<lambda>j. int j + 1) [Suc k ..< Suc k + length rest]" by blast+
  moreover have "[k ..< k + length (i # rest)] = k # [Suc k ..< Suc k + length rest]"
    by (simp add: upt_conv_Cons del: upt_Suc)
  ultimately show ?case
    using extract_card_idx [OF d] rs by (simp del: upt_Suc)
qed

lemma well_formed_card_extracts: "well_formed_card i \<Longrightarrow> \<exists>d. extract_card k i = Inr d"
  by (auto simp: well_formed_card_def extract_card_def Let_def split: option.splits)

lemma well_formed_cards_extract:
  "list_all well_formed_card cards \<Longrightarrow> \<exists>rs. extract_cards k cards = Inr rs"
proof (induction cards arbitrary: k)
  case Nil
  then show ?case by simp
next
  case (Cons i rest)
  then obtain d where "extract_card k i = Inr d"
    using well_formed_card_extracts by fastforce
  moreover from Cons obtain ds where "extract_cards (Suc k) rest = Inr ds"
    by fastforce
  ultimately show ?case by simp
qed

lemma extract_cards_nth:
  "extract_cards k cards = Inr rs \<Longrightarrow> j < length cards \<Longrightarrow>
   extract_card (k + j) (cards ! j) = Inr (rs ! j)"
proof (induction cards arbitrary: k rs j)
  case Nil
  then show ?case by simp
next
  case (Cons i rest)
  from Cons.prems(1) obtain d ds where d: "extract_card k i = Inr d"
    and ds: "extract_cards (Suc k) rest = Inr ds" and rs: "rs = d # ds"
    by (auto split: sum.splits)
  show ?case
  proof (cases j)
    case 0
    with d rs show ?thesis by simp
  next
    case (Suc j')
    with Cons.prems(2) have "j' < length rest" by simp
    from Cons.IH [OF ds this] Suc rs show ?thesis by simp
  qed
qed

lemma extract_card_fields:
  assumes "extract_card k i = Inr d"
  shows "rating d = rating_given i" and "formatted i = Some (content d)"
  using assms by (auto simp: extract_card_def Let_def split: option.splits)

text \<open>
  Claim C7. When the request returns a page with a title, an author and at least two
  review lists, and every card of the second list is well formed, \<open>find_review\<close>
  returns one entry per card: the entry at position \<open>j\<close> is what is extracted from the
  card at position \<open>j\<close> of the list, it holds that card's review body, and its index
  is \<open>j + 1\<close>; so the indices are 1, 2, ..., N in the order of the cards, hence
  distinct.
\<close>

theorem index_contiguous:
  assumes "get url = Inr resp"
    and "h1_title (body resp) = Some title"
    and "contributor (body resp) = Some author"
    and "reviews_lists (body resp) = l0 # cards # ls"
    and "list_all well_formed_card cards"
  shows "\<exists>rs. find_review get url = Inr (title, author, rs) \<and> length rs = length cards \<and>
           map idx rs = [1 .. int (length cards)] \<and> distinct (map idx rs) \<and>
           (\<forall>j<length cards.
              extract_card j (cards ! j) = Inr (rs ! j) \<and>
              idx (rs ! j) = int j + 1 \<and>
              formatted (cards ! j) = Some (content (rs ! j)))"
proof -
  from assms(5) obtain rs where rs: "extract_cards 0 cards = Inr rs"
    using well_formed_cards_extract by blast
  from extract_cards_idx [OF rs] have len: "length rs = length cards"
    and m: "map idx rs = map (\<lambda>j. int j + 1) [0 ..< length cards]" by simp_all
  have "map (\<lambda>j. int j + 1) [0 ..< n] = [1 .. int n]" for n
    by (induction n) (simp_all add: upto_rec2)
  with m have m': "map idx rs = [1 .. int (length cards)]" by simp
  have f: "find_review get url = Inr (title, author, rs)"
    using assms(1-4) rs by (simp add: find_review_def)
  have o: "extract_card j (cards ! j) = Inr (rs ! j) \<and> idx (rs ! j) = int j + 1 \<and>
      formatted (cards ! j) = Some (content (rs ! j))" if "j < length cards" for j
  proof -
    from extract_cards_nth [OF rs that] have e: "extract_card j (cards ! j) = Inr (rs ! j)"
      by simp
    with extract_card_idx [OF e] extract_card_fields(2) [OF e] show ?thesis by simp
  qed
  from f len m' o show ?thesis by simp
qed

lemma extract_sample_cards: "extract_cards 0 [alice, bob] = Inr sample_reviews"
  by (simp add: alice_def bob_def extract_card_def scan_spans_def classify_span_def
      initial_vars_def py_bool_def rating_given_def rating_lookup_def sample_reviews_def)

lemma find_review_sample:
  "find_review (serve status sample_page) url = Inr (''A Book'', ''An Author'', sample_reviews)"
  by (simp add: find_review_def serve_def sample_page_def extract_sample_cards
      del: extract_cards.simps)

theorem index_contiguous_witness:
  "\<exists>rs. find_review (serve 200 sample_page) ''u'' = Inr (''A Book'', ''An Author'', rs) \<and>
        length rs = 2 \<and> map idx rs = [1, 2] \<and>
        content (rs ! 0) = ''Loved the pacing.'' \<and> content (rs ! 1) = ''Characters felt flat.''"
proof -
  have h1: "serve 200 sample_page ''u'' = Inr \<lparr>status_code = 200, body = sample_page\<rparr>"
    by (simp add: serve_def)
  have h2: "h1_title (body \<lparr>status_code = 200, body = sample_page\<rparr>) = Some ''A Book''"
    by (simp add: sample_page_def)
  have h3: "contributor (body \<lparr>status_code = 200, body = sample_page\<rparr>) = Some ''An Author''"
    by (simp add: sample_page_def)
  have h4: "reviews_lists (body \<lparr>status_code = 200, body = sample_page\<rparr>) = [] # [alice, bob] # []"
    by (simp add: sample_page_def)
  have h5: "list_all well_formed_card [alice, bob]"
    by (simp add: well_formed_card_def alice_def bob_def)
  have u: "[1 .. int (length [alice, bob])] = [1, 2]"
    by (simp add: upto_rec1)
  from index_contiguous [where get = "serve 200 sample_page" and url = "''u''", OF h1 h2 h3 h4 h5]
  obtain rs where f: "find_review (serve 200 sample_page) ''u'' = Inr (''A Book'', ''An Author'', rs)"
    and l: "length rs = length [alice, bob]"
    and m: "map idx rs = [1 .. int (length [alice, bob])]"
    and o: "\<forall>j<length [alice, bob]. formatted ([alice, bob] ! j) = Some (content (rs ! j))"
    by blast
  from o [rule_format, of 0] o [rule_format, of 1]
  have "formatted ([alice, bob] ! 0) = Some (content (rs ! 0))"
    and "formatted ([alice, bob] ! 1) = Some (content (rs ! 1))" by simp_all
  then have "content (rs ! 0) = ''Loved the pacing.''" and "content (rs ! 1) = ''Characters felt flat.''"
    by (simp_all add: alice_def bob_def)
  with f l m u show ?thesis by (intro exI [of _ rs]) simp
qed

text \<open>
  Claim C9. On a page with fewer than two review lists \<open>find_review\<close> fails, the run
  stops in its cell, and no later cell runs. The failure is the \<open>IndexError\<close> of
  \<open>reviews_list[1]\<close> whenever title and author are present (when one of them is
  missing, the \<open>AttributeError\<close> of that lookup comes first).
\<close>

theorem fewer_than_two_lists_fails:
  assumes "get url = Inr resp"
    and "length (reviews_lists (body resp)) < 2"
  shows "\<exists>e. find_review get url = Inl e \<and>
           run_all get invoke system_prompt url = ([Cell_find_review], Inl e) \<and>
           (h1_title (body resp) \<noteq> None \<and> contributor (body resp) \<noteq> None \<longrightarrow> e = IndexError)"
proof -
  from assms(2) have "reviews_lists (body resp) = [] \<or> (\<exists>l0. reviews_lists (body resp) = [l0])"
    by (cases "reviews_lists (body resp)") (auto simp: less_Suc_eq_0_disj)
  then have "\<exists>e. find_review get url = Inl e \<and>
     (h1_title (body resp) \<noteq> None \<and> contributor (body resp) \<noteq> None \<longrightarrow> e = IndexError)"
    using assms(1) by (auto simp: find_review_def split: option.splits)
  then obtain e where e: "find_review get url = Inl e"
    and i: "h1_title (body resp) \<noteq> None \<and> contributor (body resp) \<noteq> None \<longrightarrow> e = IndexError"
    by blast
  from e have "run_all get invoke system_prompt url = ([Cell_find_review], Inl e)"
    by (simp add: run_all_def)
  with e i show ?thesis by blast
qed

theorem fewer_than_two_lists_fails_witness:
  "find_review (serve 200 (sample_page\<lparr>reviews_lists := [[alice, bob]]\<rparr>)) ''u'' = Inl IndexError \<and>
   run_all (serve 200 (sample_page\<lparr>reviews_lists := [[alice, bob]]\<rparr>)) (\<lambda>m. Inr ''summary'')
       ''prompt'' ''u''
     = ([Cell_find_review], Inl IndexError)"
proof -
  let ?page = "sample_page\<lparr>reviews_lists := [[alice, bob]]\<rparr>"
  have h1: "serve 200 ?page ''u'' = Inr \<lparr>status_code = 200, body = ?page\<rparr>"
    by (simp add: serve_def)
  have h2: "length (reviews_lists (body \<lparr>status_code = 200, body = ?page\<rparr>)) < 2"
    by simp
  from fewer_than_two_lists_fails
    [where get = "serve 200 ?page" and url = "''u''" and invoke = "\<lambda>m. Inr ''summary''"
       and system_prompt = "''prompt''", OF h1 h2]
  show ?thesis by (auto simp: sample_page_def)
qed

text \<open>
  Claim C6, as amended. When the request cannot complete, the error of the transport
  is the result of \<open>find_review\<close> and no later cell runs. When the request returns a
  response, its status code is not looked at: the result is the one that the same page
  gives with status 200.
\<close>

theorem fetch_failure_propagates:
  "(get url = Inl e \<longrightarrow>
      find_review get url = Inl e \<and>
      run_all get invoke system_prompt url = ([Cell_find_review], Inl e)) \<and>
   (get url = Inr resp \<longrightarrow>
      find_review get url = find_review (\<lambda>u. Inr (resp\<lparr>status_code := 200\<rparr>)) url)"
  by (auto simp: find_review_def run_all_def split: option.splits)

theorem fetch_failure_propagates_witness:
  "find_review (\<lambda>u. Inl ConnectionError) ''u'' = Inl ConnectionError \<and>
   run_all (\<lambda>u. Inl ConnectionError) (\<lambda>m. Inr ''summary'') ''prompt'' ''u''
     = ([Cell_find_review], Inl ConnectionError) \<and>
   find_review (serve 503 sample_page) ''u'' = find_review (serve 200 sample_page) ''u''"
  using fetch_failure_propagates
    [where get = "\<lambda>u. Inl ConnectionError" and url = "''u''" and e = ConnectionError
       and invoke = "\<lambda>m. Inr ''summary''" and system_prompt = "''prompt''"]
    fetch_failure_propagates
    [where get = "serve 503 sample_page" and url = "''u''"
       and resp = "\<lparr>status_code = 503, body = sample_page\<rparr>"]
  by (simp add: serve_def)

text \<open>
  Claim C6 as stated fails: on a response with status 404 that carries the sample
  page, extraction runs and succeeds, and all four cells run.
\<close>

theorem non_success_status_counterexample:
  "find_review (serve 404 sample_page) ''u'' = Inr (''A Book'', ''An Author'', sample_reviews) \<and>
   run_all (serve 404 sample_page) (\<lambda>m. Inr ''summary'') ''prompt'' ''u''
     = ([Cell_find_review, Cell_review_cleaning, Cell_extract_content, Cell_llm_summarise],
        Inr ''summary'')"
  by code_simp

section \<open>Properties of the normalizer and the aggregator\<close>

subsection \<open>Digits\<close>

lemma digit_table:
  "list_all (\<lambda>d. is_digit (digit_char d) \<and> digit_val (digit_char d) = d) [0 .. 9]"
  by code_simp

lemma digit_char_ok:
  assumes "0 \<le> d" and "d < 10"
  shows "is_digit (digit_char d)" and "digit_val (digit_char d) = d"
proof -
  from assms have "d \<in> set [0 .. 9]" by simp
  with digit_table have "is_digit (digit_char d) \<and> digit_val (digit_char d) = d"
    unfolding list_all_iff by blast
  then show "is_digit (digit_char d)" and "digit_val (digit_char d) = d" by simp_all
qed

lemma dec_val_snoc: "dec_val (ds @ [c]) = 10 * dec_val ds + digit_val c"
  by (simp add: dec_val_def)

lemma digits_of_ok:
  "0 \<le> n \<Longrightarrow>
   list_all is_digit (digits_of n) \<and> digits_of n \<noteq> [] \<and> dec_val (digits_of n) = n"
proof (induction n rule: digits_of.induct)
  case (1 n)
  show ?case
  proof (cases "n < 10")
    case True
    with "1.prems" show ?thesis
      by (simp add: digits_of.simps [of n] digit_char_ok dec_val_def)
  next
    case False
    with 1 have "list_all is_digit (digits_of (n div 10))"
      and "dec_val (digits_of (n div 10)) = n div 10" by simp_all
    moreover have "0 \<le> n mod 10" and "n mod 10 < 10" by simp_all
    ultimately show ?thesis
      using False by (simp add: digits_of.simps [of n] digit_char_ok dec_val_snoc)
  qed
qed

lemma dec_val_nonneg: "list_all is_digit ds \<Longrightarrow> 0 \<le> dec_val ds"
proof (induction ds rule: rev_induct)
  case Nil
  then show ?case by (simp add: dec_val_def)
next
  case (snoc c ds)
  then have "is_digit c" and "0 \<le> dec_val ds" by simp_all
  moreover from \<open>is_digit c\<close> have "0 \<le> digit_val c"
    by (auto simp: is_digit_def digit_val_def)
  ultimately show ?case by (simp add: dec_val_snoc)
qed

lemma is_digit_not_sign: "is_digit c \<Longrightarrow> c \<noteq> CHR ''-'' \<and> c \<noteq> CHR ''+''"
  by (auto simp: is_digit_def)

lemma str_to_i32_digits:
  assumes "list_all is_digit ds" and "ds \<noteq> []"
  shows "str_to_i32 ds = (if dec_val ds \<le> 2147483647 then Some (dec_val ds) else None)"
proof -
  from assms obtain c cs where ds: "ds = c # cs" and c: "is_digit c"
    by (cases ds) auto
  from is_digit_not_sign [OF c] assms(1) ds dec_val_nonneg [OF assms(1)] show ?thesis
    by (simp add: str_to_i32_def digits_to_int_def in_i32_def)
qed

lemma str_to_i32_i32_to_str:
  assumes "0 \<le> n" and "in_i32 n"
  shows "str_to_i32 (i32_to_str n) = Some n"
  using assms by (simp add: i32_to_str_def str_to_i32_digits digits_of_ok in_i32_def)

subsection \<open>Replacing in texts that start with digits\<close>

lemma replace_first_digits:
  "list_all is_digit ds \<Longrightarrow> \<not> is_digit p \<Longrightarrow>
   replace_first (p # ps) v (ds @ s) = ds @ replace_first (p # ps) v s"
  by (induction ds) auto

lemma replace_first_only_digits:
  "list_all is_digit ds \<Longrightarrow> \<not> is_digit p \<Longrightarrow> replace_first (p # ps) v ds = ds"
  using replace_first_digits [of ds p ps v "[]"] by simp

lemma not_digit_chars:
  "\<not> is_digit (CHR ''r'')" "\<not> is_digit (CHR '' '')" "\<not> is_digit (CHR '','')"
  "\<not> is_digit (CHR ''N'')" "\<not> is_digit (CHR ''f'')" "\<not> is_digit (CHR ''.'')"
  "\<not> is_digit (CHR ''k'')" "\<not> is_digit (CHR ''K'')"
  by (simp_all add: is_digit_def)

lemma reviews_text_plain:
  assumes "list_all is_digit ds"
  shows "reviews_text (ds @ '' reviews'') = ds" and "reviews_text (ds @ '' review'') = ds"
  using assms
  by (simp_all add: reviews_text_def replace_first_digits replace_first_only_digits not_digit_chars)

lemma reviews_text_comma:
  assumes "list_all is_digit ds" and "list_all is_digit es"
  shows "reviews_text (ds @ '','' @ es @ '' reviews'') = ds @ es"
    and "reviews_text (ds @ '','' @ es @ '' review'') = ds @ es"
proof -
  have a: "replace_first (p # ps) v (ds @ CHR '','' # es @ s) =
      ds @ CHR '','' # es @ replace_first (p # ps) v s"
    if "\<not> is_digit p" and "p \<noteq> CHR '',''" for p ps v s
    using that assms by (simp add: replace_first_digits)
  have b: "replace_first (p # ps) v (ds @ es) = ds @ es" if "\<not> is_digit p" for p ps v
    using that assms replace_first_only_digits [of "ds @ es" p ps v] by simp
  show "reviews_text (ds @ '','' @ es @ '' reviews'') = ds @ es"
    using assms
    by (simp add: reviews_text_def a b replace_first_digits replace_first_only_digits
        not_digit_chars)
  show "reviews_text (ds @ '','' @ es @ '' review'') = ds @ es"
    using assms
    by (simp add: reviews_text_def a b replace_first_digits replace_first_only_digits
        not_digit_chars)
qed

lemma reviews_text_not_found: "reviews_text ''Not Found'' = ''0''"
  by (simp add: reviews_text_def)

subsection \<open>Rows of the cleaned frame\<close>

lemma cast_strict_Inr:
  assumes "cast_strict f col = Inr ys"
  shows "length ys = length col"
    and "k < length col \<Longrightarrow> ys ! k = Option.bind (col ! k) f"
    and "k < length col \<Longrightarrow> converts f (col ! k)"
proof -
  from assms have all: "list_all (converts f) col" and ys: "ys = map (\<lambda>x. Option.bind x f) col"
    by (auto simp: cast_strict_def split: if_splits)
  from ys show "length ys = length col" by simp
  from ys show "k < length col \<Longrightarrow> ys ! k = Option.bind (col ! k) f" by simp
  from all show "k < length col \<Longrightarrow> converts f (col ! k)"
    by (simp add: list_all_length)
qed

lemma reviews_column_cell:
  assumes "reviews_column col = Inr rs"
  shows "length rs = length col" and "k < length col \<Longrightarrow> rs ! k = reviews_cell (col ! k)"
    and "k < length col \<Longrightarrow> reviews_cell (col ! k) \<noteq> None"
  using cast_strict_Inr(1) [OF assms [unfolded reviews_column_def]]
    cast_strict_Inr(2) [OF assms [unfolded reviews_column_def], of k]
    cast_strict_Inr(3) [OF assms [unfolded reviews_column_def], of k]
  by (auto simp: reviews_cell_def converts_def split: option.splits)

lemma rating_column_cell:
  assumes "rating_column col = Inr gs"
  shows "length gs = length col" and "k < length col \<Longrightarrow> gs ! k = rating_cell (col ! k)"
proof -
  from assms have c: "cast_strict str_to_i32 (map (\<lambda>x. Option.bind x extract_rating) col) = Inr gs"
    by (simp add: rating_column_def split: if_splits)
  from cast_strict_Inr(1) [OF c] show "length gs = length col" by simp
  from cast_strict_Inr(2) [OF c, of k]
  show "k < length col \<Longrightarrow> gs ! k = rating_cell (col ! k)"
    by (simp add: rating_cell_def)
qed

lemma replacement_values_cell:
  assumes "replacement_values col = Inr vals"
  shows "length vals = length col"
    and "k < length col \<Longrightarrow>
           vals ! k = map_option i32_to_str (Option.bind (thousands (col ! k)) f64_to_i32)"
proof -
  from assms obtain ints where c: "cast_strict f64_to_i32 (map thousands col) = Inr ints"
    and v: "vals = map (map_option i32_to_str) ints"
    by (auto simp: replacement_values_def split: sum.splits)
  from cast_strict_Inr(1) [OF c] v show "length vals = length col" by simp
  assume k: "k < length col"
  with cast_strict_Inr(1) [OF c] cast_strict_Inr(2) [OF c, of k] v
  show "vals ! k = map_option i32_to_str (Option.bind (thousands (col ! k)) f64_to_i32)"
    by simp
qed

lemma replace_with_values_cell:
  assumes "replace_with_values col vals = Inr rep" and "length vals = length col"
  shows "length rep = length col"
    and "k < length col \<Longrightarrow>
           rep ! k = Some (case vals ! k of None \<Rightarrow> col ! k
                           | Some x \<Rightarrow> replace_k_followers x (col ! k))"
    and "length col = 1 \<Longrightarrow> vals ! 0 \<noteq> None"
proof -
  consider "vals = []" | v where "vals = [v]" | v w vs where "vals = v # w # vs"
    by (cases vals rule: list.exhaust [case_product list.exhaust]) (metis list.exhaust)+
  then have "length rep = length col \<and>
      (k < length col \<longrightarrow>
         rep ! k = Some (case vals ! k of None \<Rightarrow> col ! k
                         | Some x \<Rightarrow> replace_k_followers x (col ! k))) \<and>
      (length col = 1 \<longrightarrow> vals ! 0 \<noteq> None)"
  proof cases
    case 1
    with assms show ?thesis by (simp add: replace_with_values_def)
  next
    case 2
    with assms(2) obtain s where col: "col = [s]"
      by (cases col) auto
    with 2 assms(1) show ?thesis
      by (auto simp: replace_with_values_def split: option.splits)
  next
    case 3
    with assms show ?thesis
      by (auto simp: replace_with_values_def split: option.splits)
  qed
  then show "length rep = length col"
    and "k < length col \<Longrightarrow>
           rep ! k = Some (case vals ! k of None \<Rightarrow> col ! k
                           | Some x \<Rightarrow> replace_k_followers x (col ! k))"
    and "length col = 1 \<Longrightarrow> vals ! 0 \<noteq> None"
    by simp_all
qed

lemma followers_column_cell:
  assumes "followers_column col = Inr fs"
  shows "length fs = length col"
    and "k < length col \<Longrightarrow> fs ! k = followers_cell (col ! k)"
    and "length col = 1 \<Longrightarrow> extract_number (col ! 0) \<noteq> None"
    and "k < length col \<Longrightarrow> followers_cell (col ! k) \<noteq> None"
proof -
  from assms obtain ints rep where i: "cast_strict f64_to_i32 (map thousands col) = Inr ints"
    and r: "replace_with_values col (map (map_option i32_to_str) ints) = Inr rep"
    and c: "cast_strict str_to_i32 (map (map_option followers_text) rep) = Inr fs"
    by (auto simp: followers_column_def replacement_values_def split: sum.splits)
  have li: "length ints = length col"
    using cast_strict_Inr(1) [OF i] by simp
  then have lv: "length (map (map_option i32_to_str) ints) = length col" by simp
  note lr = replace_with_values_cell(1) [OF r lv]
  from cast_strict_Inr(1) [OF c] lr show "length fs = length col" by simp
  have cell: "fs ! k = followers_cell (col ! k) \<and> followers_cell (col ! k) \<noteq> None"
    if k: "k < length col"
  proof -
    from cast_strict_Inr(2) [OF i, of k] k
    have ik: "ints ! k = Option.bind (thousands (col ! k)) f64_to_i32" by simp
    from cast_strict_Inr(3) [OF i, of k] k
    have cv: "converts f64_to_i32 (thousands (col ! k))" by simp
    from replace_with_values_cell(2) [OF r lv k] k li
    have rk: "rep ! k = Some (case map_option i32_to_str (ints ! k) of None \<Rightarrow> col ! k
                             | Some x \<Rightarrow> replace_k_followers x (col ! k))" by simp
    from cast_strict_Inr(2) [OF c, of k] k lr
    have fk: "fs ! k = Option.bind (map_option followers_text (rep ! k)) str_to_i32" by simp
    from cast_strict_Inr(3) [OF c, of k] k lr
    have cs: "converts str_to_i32 (map_option followers_text (rep ! k))" by simp
    from ik cv rk fk have "fs ! k = followers_cell (col ! k)"
      by (auto simp: followers_cell_def converts_def split: option.splits)
    moreover from fk cs have "fs ! k \<noteq> None"
      by (auto simp: rk converts_def split: option.splits)
    ultimately show ?thesis by simp
  qed
  from cell show "k < length col \<Longrightarrow> fs ! k = followers_cell (col ! k)" by simp
  from cell show "k < length col \<Longrightarrow> followers_cell (col ! k) \<noteq> None" by simp
  show "extract_number (col ! 0) \<noteq> None" if one: "length col = 1"
  proof -
    from one li have "map (map_option i32_to_str) ints ! 0 = map_option i32_to_str (ints ! 0)"
      by simp
    with replace_with_values_cell(3) [OF r lv one] cast_strict_Inr(2) [OF i, of 0] one
    show ?thesis by (cases "extract_number (col ! 0)") (auto simp: thousands_def)
  qed
qed

lemma review_cleaning_row:
  assumes "review_cleaning review = Inr df"
  shows "length df = length review"
    and "k < length review \<Longrightarrow>
           c_reviews (df ! k) = reviews_cell (reviews_amount (profile_of (review ! k)))"
    and "k < length review \<Longrightarrow> c_reviews (df ! k) \<noteq> None"
    and "k < length review \<Longrightarrow>
           c_followers (df ! k) = followers_cell (followers_amount (profile_of (review ! k)))"
    and "k < length review \<Longrightarrow> c_rating (df ! k) = rating_cell (rating (review ! k))"
    and "k < length review \<Longrightarrow> c_content (df ! k) = content (review ! k)"
    and "k < length review \<Longrightarrow> c_name (df ! k) = name (profile_of (review ! k))"
    and "length review = 1 \<Longrightarrow>
           extract_number (followers_amount (profile_of (review ! 0))) \<noteq> None"
    and "k < length review \<Longrightarrow> c_followers (df ! k) \<noteq> None"
proof -
  let ?rc = "map (\<lambda>d. reviews_amount (profile_of d)) review"
  let ?fc = "map (\<lambda>d. followers_amount (profile_of d)) review"
  from assms obtain rs fs gs where rs: "reviews_column ?rc = Inr rs"
    and fs: "followers_column ?fc = Inr fs"
    and gs: "rating_column (map rating review) = Inr gs"
    and df: "df = map cleaned (zip review (zip rs (zip fs gs)))"
    by (auto simp: review_cleaning_def split: list.splits sum.splits)
  have len: "length rs = length review" "length fs = length review" "length gs = length review"
    using reviews_column_cell(1) [OF rs] followers_column_cell(1) [OF fs]
      rating_column_cell(1) [OF gs] by simp_all
  with df show "length df = length review" by simp
  have row: "df ! k = cleaned (review ! k, rs ! k, fs ! k, gs ! k)" if "k < length review"
    using that len df by simp
  show "c_reviews (df ! k) = reviews_cell (reviews_amount (profile_of (review ! k)))"
    if "k < length review"
    using that row reviews_column_cell(2) [OF rs, of k] by (simp add: cleaned_def)
  show "c_reviews (df ! k) \<noteq> None" if "k < length review"
    using that row reviews_column_cell(2,3) [OF rs, of k] by (simp add: cleaned_def)
  show "c_followers (df ! k) = followers_cell (followers_amount (profile_of (review ! k)))"
    if "k < length review"
    using that row followers_column_cell(2) [OF fs, of k] by (simp add: cleaned_def)
  show "c_rating (df ! k) = rating_cell (rating (review ! k))" if "k < length review"
    using that row rating_column_cell(2) [OF gs, of k] by (simp add: cleaned_def)
  show "c_content (df ! k) = content (review ! k)" if "k < length review"
    using that row by (simp add: cleaned_def)
  show "c_name (df ! k) = name (profile_of (review ! k))" if "k < length review"
    using that row by (simp add: cleaned_def)
  show "extract_number (followers_amount (profile_of (review ! 0))) \<noteq> None"
    if "length review = 1"
    using that followers_column_cell(3) [OF fs] by simp
  show "c_followers (df ! k) \<noteq> None" if "k < length review"
    using that row followers_column_cell(2) [OF fs, of k] followers_column_cell(4) [OF fs, of k]
    by (simp add: cleaned_def)
qed

subsection \<open>Reviews count\<close>

lemma reviews_cell_digits:
  assumes "list_all is_digit ds" and "ds \<noteq> []" and "reviews_text raw = ds"
    and "reviews_cell raw \<noteq> None"
  shows "reviews_cell raw = Some (dec_val ds)"
  using assms by (auto simp: reviews_cell_def str_to_i32_digits split: if_splits)

lemma cleaning_examples:
  "review_cleaning example_frame
   = Inr [\<lparr>c_name = ''Reader'', c_reviews = Some 1234, c_followers = Some 1500,
           c_rating = Some 4, c_content = ''Text''\<rparr>,
          \<lparr>c_name = ''Reader'', c_reviews = Some 12, c_followers = Some 250,
           c_rating = None, c_content = ''Text''\<rparr>,
          \<lparr>c_name = ''Reader'', c_reviews = Some 1, c_followers = Some 1,
           c_rating = None, c_content = ''Text''\<rparr>,
          \<lparr>c_name = ''Reader'', c_reviews = Some 0, c_followers = Some 1234,
           c_rating = Some 5, c_content = ''Text''\<rparr>]"
  by code_simp

text \<open>
  Claim C4, as amended. In a frame that is cleaned successfully, a reviews text made
  of digits followed by `` reviews'' or `` review'' gives the value of the digits; a
  text made of digits, one comma, digits and that word gives the value of the digits
  without the comma; ``Not Found'' gives 0. Each replacement acts on the leftmost
  occurrence only, so that one space and one comma are the most that are removed.
\<close>

theorem reviews_count_first_occurrences:
  assumes "review_cleaning review = Inr df" and "k < length review"
    and "list_all is_digit ds" and "ds \<noteq> []" and "list_all is_digit es"
    and "w = '' reviews'' \<or> w = '' review''"
  shows "(reviews_amount (profile_of (review ! k)) = ds @ w \<longrightarrow>
            c_reviews (df ! k) = Some (dec_val ds)) \<and>
         (reviews_amount (profile_of (review ! k)) = ds @ '','' @ es @ w \<longrightarrow>
            c_reviews (df ! k) = Some (dec_val (ds @ es))) \<and>
         (reviews_amount (profile_of (review ! k)) = ''Not Found'' \<longrightarrow>
            c_reviews (df ! k) = Some 0)"
proof -
  let ?raw = "reviews_amount (profile_of (review ! k))"
  have cell: "c_reviews (df ! k) = reviews_cell ?raw" and some: "reviews_cell ?raw \<noteq> None"
    using review_cleaning_row(2,3) [OF assms(1,2)] by simp_all
  have a: "reviews_cell ?raw = Some (dec_val ds)" if "?raw = ds @ w"
  proof -
    from that assms(3,6) have "reviews_text ?raw = ds"
      using reviews_text_plain [of ds] by auto
    with assms(3,4) some show ?thesis by (simp add: reviews_cell_digits)
  qed
  have b: "reviews_cell ?raw = Some (dec_val (ds @ es))" if "?raw = ds @ '','' @ es @ w"
  proof -
    from that assms(3,5,6) have "reviews_text ?raw = ds @ es"
      using reviews_text_comma [of ds es] by auto
    moreover from assms(3,4,5) have "list_all is_digit (ds @ es)" and "ds @ es \<noteq> []"
      by simp_all
    ultimately show ?thesis using some by (simp add: reviews_cell_digits)
  qed
  have c: "reviews_cell ''Not Found'' = Some 0"
    by (simp add: reviews_cell_def reviews_text_not_found str_to_i32_def digits_to_int_def
        is_digit_def dec_val_def digit_val_def in_i32_def)
  from a b c cell show ?thesis by simp
qed

theorem reviews_count_first_occurrences_witness:
  "\<exists>df. review_cleaning example_frame = Inr df \<and>
         c_reviews (df ! 0) = Some 1234 \<and> c_reviews (df ! 1) = Some 12 \<and>
         c_reviews (df ! 2) = Some 1 \<and> c_reviews (df ! 3) = Some 0"
proof -
  obtain df where df: "review_cleaning example_frame = Inr df"
    using cleaning_examples by blast
  have d: "list_all is_digit ''1''" "list_all is_digit ''234''" "list_all is_digit ''12''"
    "''1'' \<noteq> []" "''12'' \<noteq> []"
    by (simp_all add: is_digit_def)
  have v: "dec_val (''1'' @ ''234'') = 1234" "dec_val ''12'' = 12" "dec_val ''1'' = 1"
    by (simp_all add: dec_val_def digit_val_def)
  have "c_reviews (df ! 0) = Some 1234"
    using reviews_count_first_occurrences
      [OF df, of 0 "''1''" "''234''" "'' reviews''"] d v by (simp add: example_frame_def raw_review_def)
  moreover have "c_reviews (df ! 1) = Some 12"
    using reviews_count_first_occurrences
      [OF df, of 1 "''12''" "''234''" "'' reviews''"] d v by (simp add: example_frame_def raw_review_def)
  moreover have "c_reviews (df ! 2) = Some 1"
    using reviews_count_first_occurrences
      [OF df, of 2 "''1''" "''234''" "'' review''"] d v by (simp add: example_frame_def raw_review_def)
  moreover have "c_reviews (df ! 3) = Some 0"
    using reviews_count_first_occurrences
      [OF df, of 3 "''1''" "''234''" "'' review''"] d by (simp add: example_frame_def raw_review_def)
  ultimately show ?thesis using df by blast
qed

text \<open>
  Claim C4 as stated fails: in ``1,234,567 reviews'' only the first comma is removed,
  the text ``1234,567'' is left, and the strict cast aborts the cleaning instead of
  giving 1234567.
\<close>

theorem every_comma_removed_counterexample:
  "reviews_text ''1,234,567 reviews'' = ''1234,567'' \<and>
   review_cleaning [raw_review ''1,234,567 reviews'' ''250 followers'' unrated]
     = Inl InvalidOperationError"
  by code_simp

subsection \<open>Rating\<close>

lemma rating_cell_examples:
  "rating_cell (Some ''No Rating Given'') = None"
  "rating_cell (Some ''Rating 4 out of 5'') = Some 4"
  "rating_cell None = None"
  by code_simp+

lemma find_review_cards:
  assumes "get url = Inr resp" and "reviews_lists (body resp) = l0 # cards # ls"
    and "find_review get url = Inr (title, author, review)"
  shows "extract_cards 0 cards = Inr review"
  using assms by (auto simp: find_review_def split: option.splits sum.splits)

text \<open>
  Claim C5, as amended. For the card at position \<open>j\<close> of the second list and the entry
  that \<open>find_review\<close> returns for it: whenever the lookup inside the \<open>try\<close> raises,
  whatever the exception, the raw rating of that entry is ``No Rating Given''; this is
  so when the shelf status is absent and when the rating element is absent. In a frame
  that is cleaned successfully, the row of an entry with the raw rating ``No Rating
  Given'' has a null rating, and the row of an entry with ``Rating 4 out of 5'' has the
  rating 4.
\<close>

theorem rating_fallback:
  assumes "get url = Inr resp" and "reviews_lists (body resp) = l0 # cards # ls"
    and "find_review get url = Inr (title, author, review)" and "j < length cards"
  shows "(rating_lookup (cards ! j) = Inl e \<longrightarrow>
            rating (review ! j) = Some ''No Rating Given'') \<and>
         (shelf_status (cards ! j) = None \<longrightarrow>
            rating (review ! j) = Some ''No Rating Given'') \<and>
         (shelf_status (cards ! j) = Some sh \<and> rating_stars sh = None \<longrightarrow>
            rating (review ! j) = Some ''No Rating Given'') \<and>
         (review_cleaning review = Inr df \<and> rating (review ! j) = Some ''No Rating Given'' \<longrightarrow>
            c_rating (df ! j) = None) \<and>
         (review_cleaning review = Inr df \<and> rating (review ! j) = Some ''Rating 4 out of 5'' \<longrightarrow>
            c_rating (df ! j) = Some 4)"
proof -
  have cards: "extract_cards 0 cards = Inr review"
    using assms(1-3) by (rule find_review_cards)
  from extract_cards_nth [OF cards assms(4)]
  have r: "rating (review ! j) = rating_given (cards ! j)"
    by (simp add: extract_card_fields(1))
  from extract_cards_idx [OF cards] assms(4) have j: "j < length review" by simp
  have "c_rating (df ! j) = rating_cell (rating (review ! j))" if "review_cleaning review = Inr df"
    using review_cleaning_row(5) [OF that j] .
  with r show ?thesis
    by (auto simp: rating_given_def rating_lookup_def rating_cell_examples)
qed

subsection \<open>Aggregation\<close>

lemma split_on_no_sep: "sep \<notin> set x \<Longrightarrow> split_on sep x = [x]"
  by (induction x) auto

lemma split_on_append:
  "sep \<notin> set x \<Longrightarrow> split_on sep (x @ sep # r) = x # split_on sep r"
  by (induction x) auto

lemma split_on_join_with:
  "xs \<noteq> [] \<Longrightarrow> \<forall>x\<in>set xs. sep \<notin> set x \<Longrightarrow> split_on sep (join_with [sep] xs) = xs"
proof (induction "[sep]" xs rule: join_with.induct)
  case 1
  then show ?case by simp
next
  case (2 x)
  then show ?case by (simp add: split_on_no_sep)
next
  case (3 x y ys)
  then show ?case by (simp add: split_on_append)
qed

text \<open>
  Claim C8. \<open>extract_content\<close> of a frame without rows is the empty text. For a frame
  with at least one row, none of whose contents holds a newline, it returns a text
  whose split at newlines is the list of the contents, in order.
\<close>

theorem content_round_trip:
  "extract_content [] = Inr [] \<and>
   (df \<noteq> [] \<and> list_all (\<lambda>r. CHR 0x0A \<notin> set (c_content r)) df \<longrightarrow>
      (\<exists>s. extract_content df = Inr s \<and> split_on (CHR 0x0A) s = map c_content df))"
proof -
  have "split_on (CHR 0x0A) (join_with [CHR 0x0A] (map c_content df)) = map c_content df"
    if "df \<noteq> []" and "list_all (\<lambda>r. CHR 0x0A \<notin> set (c_content r)) df"
    using that by (intro split_on_join_with) (auto simp: list_all_iff)
  then show ?thesis
    by (simp add: extract_content_def str_join_def)
qed

lemma rated_cards:
  "find_review (serve 200 (sample_page\<lparr>reviews_lists := [[], [alice_four, bob]]\<rparr>)) ''u''
   = Inr (''A Book'', ''An Author'',
       [(sample_reviews ! 0)\<lparr>rating := Some ''Rating 4 out of 5''\<rparr>, sample_reviews ! 1])"
  by (simp add: find_review_def serve_def sample_page_def alice_four_def alice_def bob_def
      extract_card_def scan_spans_def classify_span_def initial_vars_def py_bool_def
      rating_given_def rating_lookup_def sample_reviews_def)

lemma rated_cards_cleaned:
  "review_cleaning [(sample_reviews ! 0)\<lparr>rating := Some ''Rating 4 out of 5''\<rparr>, sample_reviews ! 1]
   = Inr [\<lparr>c_name = ''Alice'', c_reviews = Some 5, c_followers = Some 1200, c_rating = Some 4,
           c_content = ''Loved the pacing.''\<rparr>,
          \<lparr>c_name = ''Bob'', c_reviews = Some 0, c_followers = Some 3, c_rating = None,
           c_content = ''Characters felt flat.''\<rparr>]"
  by code_simp

theorem rating_fallback_witness:
  "\<exists>review df.
     find_review (serve 200 (sample_page\<lparr>reviews_lists := [[], [alice_four, bob]]\<rparr>)) ''u''
       = Inr (''A Book'', ''An Author'', review) \<and>
     shelf_status ([alice_four, bob] ! 1) = None \<and>
     rating (review ! 1) = Some ''No Rating Given'' \<and>
     rating (review ! 0) = Some ''Rating 4 out of 5'' \<and>
     review_cleaning review = Inr df \<and> c_rating (df ! 1) = None \<and> c_rating (df ! 0) = Some 4"
proof -
  let ?page = "sample_page\<lparr>reviews_lists := [[], [alice_four, bob]]\<rparr>"
  let ?review = "[(sample_reviews ! 0)\<lparr>rating := Some ''Rating 4 out of 5''\<rparr>, sample_reviews ! 1]"
  obtain df where df: "review_cleaning ?review = Inr df"
    using rated_cards_cleaned by blast
  have h1: "serve 200 ?page ''u'' = Inr \<lparr>status_code = 200, body = ?page\<rparr>"
    by (simp add: serve_def)
  have h2: "reviews_lists (body \<lparr>status_code = 200, body = ?page\<rparr>) = [] # [alice_four, bob] # []"
    by simp
  have n: "shelf_status ([alice_four, bob] ! 1) = None"
    by (simp add: bob_def)
  have a: "rating (?review ! 0) = Some ''Rating 4 out of 5''"
    by simp
  note t = rating_fallback [where get = "serve 200 ?page" and url = "''u''" and df = df,
      OF h1 h2 rated_cards]
  from t [of 1] n have b: "rating (?review ! 1) = Some ''No Rating Given''"
    by simp
  from t [of 1] b df have c: "c_rating (df ! 1) = None"
    by simp
  from t [of 0] a df have d: "c_rating (df ! 0) = Some 4"
    by simp
  from rated_cards n a b c d df show ?thesis by blast
qed

text \<open>
  Claim C5 as stated fails: for a card whose rating element is there but carries no
  label, the lookup of the label returns \<open>None\<close> without raising, and the raw rating
  of the extracted entry is \<open>None\<close>, not ``No Rating Given''.
\<close>

theorem label_missing_counterexample:
  "rating_lookup (bob\<lparr>shelf_status := Some \<lparr>rating_stars = Some None\<rparr>\<rparr>) = Inr None \<and>
   rating_given (bob\<lparr>shelf_status := Some \<lparr>rating_stars = Some None\<rparr>\<rparr>) = None \<and>
   extract_card 0 (bob\<lparr>shelf_status := Some \<lparr>rating_stars = Some None\<rparr>\<rparr>)
     = Inr ((sample_reviews ! 1)\<lparr>idx := 1, rating := None\<rparr>)"
  by (simp add: bob_def extract_card_def scan_spans_def classify_span_def initial_vars_def
      py_bool_def rating_given_def rating_lookup_def sample_reviews_def)

theorem content_round_trip_witness:
  "extract_content
     [\<lparr>c_name = ''Alice'', c_reviews = Some 5, c_followers = Some 1200, c_rating = Some 5,
       c_content = ''Loved the pacing.''\<rparr>,
      \<lparr>c_name = ''Bob'', c_reviews = Some 0, c_followers = Some 3, c_rating = None,
       c_content = ''Characters felt flat.''\<rparr>]
     = Inr (''Loved the pacing.'' @ [CHR 0x0A] @ ''Characters felt flat.'') \<and>
   split_on (CHR 0x0A) (''Loved the pacing.'' @ [CHR 0x0A] @ ''Characters felt flat.'')
     = [''Loved the pacing.'', ''Characters felt flat.'']"
  using content_round_trip
    [of "[\<lparr>c_name = ''Alice'', c_reviews = Some 5, c_followers = Some 1200, c_rating = Some 5,
       c_content = ''Loved the pacing.''\<rparr>,
      \<lparr>c_name = ''Bob'', c_reviews = Some 0, c_followers = Some 3, c_rating = None,
       c_content = ''Characters felt flat.''\<rparr>]"]
  by (simp add: extract_content_def str_join_def)

subsection \<open>Matching numbers\<close>

lemma digits_then_other:
  assumes "list_all is_digit ds" and "\<not> is_digit c"
  shows "takeWhile is_digit (ds @ c # r) = ds" and "dropWhile is_digit (ds @ c # r) = c # r"
  using assms by (induction ds) simp_all

lemma digits_only:
  assumes "list_all is_digit ds"
  shows "takeWhile is_digit ds = ds" and "dropWhile is_digit ds = []"
  using assms by (induction ds) simp_all

lemma match_number_int:
  assumes "list_all is_digit ds" and "ds \<noteq> []" and "\<not> is_digit c" and "c \<noteq> CHR ''.''"
  shows "match_number (ds @ c # r) = Some (ds, c # r)"
  using assms digits_then_other [OF assms(1,3), of r]
  by (cases ds) (simp_all add: match_number_def)

lemma match_number_frac:
  assumes "list_all is_digit ds" and "ds \<noteq> []" and "list_all is_digit fs" and "fs \<noteq> []"
    and "\<not> is_digit c"
  shows "match_number (ds @ CHR ''.'' # fs @ c # r) = Some (ds @ CHR ''.'' # fs, c # r)"
proof -
  have "takeWhile is_digit (ds @ CHR ''.'' # fs @ c # r) = ds"
    and "dropWhile is_digit (ds @ CHR ''.'' # fs @ c # r) = CHR ''.'' # fs @ c # r"
    using digits_then_other [OF assms(1), of "CHR ''.''"] by (simp_all add: not_digit_chars)
  moreover have "takeWhile is_digit (fs @ c # r) = fs" and "dropWhile is_digit (fs @ c # r) = c # r"
    using digits_then_other [OF assms(3,5)] by simp_all
  ultimately show ?thesis
    using assms(2,4) by (cases ds; cases fs) (simp_all add: match_number_def)
qed

lemma extract_number_at_start:
  assumes "list_all is_digit ds" and "ds \<noteq> []"
  shows "extract_number (ds @ r) = map_option fst (match_number (ds @ r))"
  using assms by (cases ds) (simp_all add: extract_number_def)

lemma starts_with_iff: "starts_with p s \<longleftrightarrow> (\<exists>t. s = p @ t)"
  unfolding starts_with_def
  by (induction p s rule: strip_prefix.induct) auto

lemma white_space_table:
  "list_all (\<lambda>p. p \<noteq> [] \<and> list_all (\<lambda>q. p = q \<or> \<not> starts_with q p) white_space) white_space"
  "distinct white_space"
  by code_simp+

lemma filter_the_one: "distinct xs \<Longrightarrow> p \<in> set xs \<Longrightarrow> filter (\<lambda>q. q = p) xs = [p]"
  by (induction xs) (auto simp: filter_empty_conv)

lemma space_width_encoding:
  assumes "p \<in> set white_space"
  shows "space_width (p @ r) = length p" and "p \<noteq> []"
proof -
  from white_space_table(1) assms show "p \<noteq> []"
    by (auto simp: list_all_iff)
  have free: "a = b" if "a \<in> set white_space" "b \<in> set white_space" "starts_with b a" for a b
    using white_space_table(1) that by (auto simp: list_all_iff)
  have "starts_with q (p @ r) \<longleftrightarrow> q = p" if q: "q \<in> set white_space" for q
  proof
    assume "starts_with q (p @ r)"
    then obtain t where "p @ r = q @ t" by (auto simp: starts_with_iff)
    then have "starts_with q p \<or> starts_with p q"
      by (auto simp: append_eq_append_conv2 starts_with_iff)
    with free [OF assms q] free [OF q assms] show "q = p" by auto
  next
    assume "q = p"
    then show "starts_with q (p @ r)" by (simp add: starts_with_iff)
  qed
  then have "filter (\<lambda>q. starts_with q (p @ r)) white_space = filter (\<lambda>q. q = p) white_space"
    by (intro filter_cong) simp_all
  also have "\<dots> = [p]"
    using white_space_table(2) assms by (rule filter_the_one)
  finally show "space_width (p @ r) = length p"
    by (simp add: space_width_def)
qed

lemma space_width_followers: "space_width ''followers'' = 0"
  by (simp add: space_width_def white_space_def starts_with_def)

lemma skip_spaces_run:
  "list_all (\<lambda>p. p \<in> set white_space) ps \<Longrightarrow>
   skip_spaces (concat ps @ ''followers'') = ''followers''"
proof (induction ps)
  case Nil
  show ?case
    using space_width_followers skip_spaces.simps [of "''followers''"] by simp
next
  case (Cons p ps)
  then have p: "p \<in> set white_space" by simp
  have w: "space_width (p @ concat ps @ ''followers'') = length p" and ne: "p \<noteq> []"
    using space_width_encoding(1) [OF p, of "concat ps @ ''followers''"]
      space_width_encoding(2) [OF p] by simp_all
  from ne w have "skip_spaces (p @ concat ps @ ''followers'') = skip_spaces (concat ps @ ''followers'')"
    using skip_spaces.simps [of "p @ concat ps @ ''followers''"] by simp
  with Cons show ?case by simp
qed

lemma space_width_run:
  assumes "list_all (\<lambda>p. p \<in> set white_space) ps" and "ps \<noteq> []"
  shows "space_width (concat ps @ ''followers'') \<noteq> 0"
proof -
  from assms obtain p qs where ps: "ps = p # qs" and p: "p \<in> set white_space"
    by (cases ps) auto
  from space_width_encoding(1) [OF p, of "concat qs @ ''followers''"]
    space_width_encoding(2) [OF p] ps show ?thesis
    by simp
qed

lemma match_k_followers_whole:
  assumes "match_number (num @ c # concat ps @ ''followers'')
      = Some (num, c # concat ps @ ''followers'')"
    and "c = CHR ''k'' \<or> c = CHR ''K''"
    and "list_all (\<lambda>p. p \<in> set white_space) ps" and "ps \<noteq> []"
  shows "match_k_followers (num @ c # concat ps @ ''followers'') = Some []"
  using assms(1,2) space_width_run [OF assms(3,4)] skip_spaces_run [OF assms(3)]
  by (auto simp: match_k_followers_def)

lemma replace_k_followers_at_start:
  "s \<noteq> [] \<Longrightarrow> match_k_followers s = Some r \<Longrightarrow> replace_k_followers v s = v @ r"
  by (cases s) simp_all

lemma replace_k_followers_digits_other:
  assumes "\<not> is_digit c" and "c \<noteq> CHR ''.''" and "c \<noteq> CHR ''k''" and "c \<noteq> CHR ''K''"
  shows "list_all is_digit ds \<Longrightarrow>
         replace_k_followers v (ds @ c # r) = ds @ replace_k_followers v (c # r)"
proof (induction ds)
  case Nil
  then show ?case by simp
next
  case (Cons d ds)
  then have "match_number ((d # ds) @ c # r) = Some (d # ds, c # r)"
    using assms(1,2) by (intro match_number_int) simp_all
  then have "match_k_followers (d # ds @ c # r) = None"
    using assms(3,4) by (simp add: match_k_followers_def)
  with Cons show ?case by simp
qed

lemma replace_k_followers_not_digit:
  "\<not> is_digit c \<Longrightarrow> replace_k_followers v (c # r) = c # replace_k_followers v r"
  by (simp add: match_k_followers_def match_number_def)

lemma replace_k_followers_words:
  "replace_k_followers v '' followers'' = '' followers''"
  "replace_k_followers v '' follower'' = '' follower''"
  by (simp_all add: match_k_followers_def match_number_def is_digit_def)

lemma replace_k_followers_plain:
  assumes "list_all is_digit ds" and "w = '' followers'' \<or> w = '' follower''"
  shows "replace_k_followers v (ds @ w) = ds @ w"
  using assms(2) replace_k_followers_digits_other [of "CHR '' ''" ds v, OF _ _ _ _ assms(1)]
    replace_k_followers_words [of v]
  by (auto simp: not_digit_chars)

lemma replace_k_followers_comma:
  assumes "list_all is_digit ds" and "list_all is_digit es"
    and "w = '' followers'' \<or> w = '' follower''"
  shows "replace_k_followers v (ds @ '','' @ es @ w) = ds @ '','' @ es @ w"
proof -
  have "replace_k_followers v (ds @ CHR '','' # es @ w)
      = ds @ replace_k_followers v (CHR '','' # es @ w)"
    using assms(1) by (intro replace_k_followers_digits_other) (simp_all add: not_digit_chars)
  also have "replace_k_followers v (CHR '','' # es @ w) = CHR '','' # replace_k_followers v (es @ w)"
    by (rule replace_k_followers_not_digit) (simp add: not_digit_chars)
  also have "replace_k_followers v (es @ w) = es @ w"
    using assms(2,3) by (rule replace_k_followers_plain)
  finally show ?thesis by simp
qed

lemma followers_text_digits: "list_all is_digit ds \<Longrightarrow> followers_text ds = ds"
  by (simp add: followers_text_def replace_first_only_digits not_digit_chars)

lemma followers_text_plain:
  assumes "list_all is_digit ds"
  shows "followers_text (ds @ '' followers'') = ds" and "followers_text (ds @ '' follower'') = ds"
  using assms
  by (simp_all add: followers_text_def replace_first_digits replace_first_only_digits
      not_digit_chars)

lemma followers_text_comma:
  assumes "list_all is_digit ds" and "list_all is_digit es"
  shows "followers_text (ds @ '','' @ es @ '' followers'') = ds @ es"
    and "followers_text (ds @ '','' @ es @ '' follower'') = ds @ es"
proof -
  have a: "replace_first (p # ps) v (ds @ CHR '','' # es @ s) =
      ds @ CHR '','' # es @ replace_first (p # ps) v s"
    if "\<not> is_digit p" and "p \<noteq> CHR '',''" for p ps v s
    using that assms by (simp add: replace_first_digits)
  show "followers_text (ds @ '','' @ es @ '' followers'') = ds @ es"
    using assms
    by (simp add: followers_text_def a replace_first_digits replace_first_only_digits
        not_digit_chars)
  show "followers_text (ds @ '','' @ es @ '' follower'') = ds @ es"
    using assms
    by (simp add: followers_text_def a replace_first_digits replace_first_only_digits
        not_digit_chars)
qed

subsection \<open>Doubles are not negative here\<close>

lemma pow2_pos: "0 < pow2 e"
  by (simp add: pow2_def)

lemma round_half_even_nonneg: "0 \<le> q \<Longrightarrow> 0 \<le> round_half_even q"
  by (auto simp: round_half_even_def Let_def)

lemma f64_round_nonneg: "0 \<le> q \<Longrightarrow> f64_round q = Finite r \<Longrightarrow> 0 \<le> r"
  by (auto simp: f64_round_def Let_def pow2_pos less_imp_le round_half_even_nonneg
      split: if_splits)

lemma decimal_value_int:
  assumes "list_all is_digit ds"
  shows "decimal_value ds = of_int (dec_val ds)"
  by (simp only: decimal_value_def Let_def digits_only [OF assms]) (simp add: dec_val_def)

lemma decimal_value_frac:
  assumes "list_all is_digit ds"
  shows "decimal_value (ds @ CHR ''.'' # fs) = of_int (dec_val ds) + of_int (dec_val fs) / 10 ^ length fs"
  using digits_then_other [OF assms, of "CHR ''.''" fs]
  by (simp add: decimal_value_def not_digit_chars)

lemma thousands_nonneg:
  assumes "0 \<le> decimal_value num" and "f64_to_i32 (f64_mul_1000 (str_to_f64 num)) = Some n"
  shows "0 \<le> n" and "in_i32 n"
proof -
  from assms(2) obtain b where b: "f64_mul_1000 (str_to_f64 num) = Finite b"
    and n: "n = \<lfloor>b\<rfloor>" and i: "in_i32 n"
    by (auto simp: f64_to_i32_def split: f64.splits if_splits)
  from b obtain a where a: "str_to_f64 num = Finite a" and ba: "f64_round (a * 1000) = Finite b"
    by (auto simp: f64_mul_1000_def split: f64.splits)
  from a assms(1) have "0 \<le> a"
    using f64_round_nonneg by (simp add: str_to_f64_def)
  then have "0 \<le> a * 1000" by simp
  from f64_round_nonneg [OF this ba] n show "0 \<le> n" by simp
  from i show "in_i32 n" .
qed

subsection \<open>Followers count\<close>

lemma followers_cell_k:
  assumes m: "match_number (num @ c # concat ps @ ''followers'')
      = Some (num, c # concat ps @ ''followers'')"
    and d: "list_all is_digit ds" "ds \<noteq> []" and num: "num = ds @ t" and nonneg: "0 \<le> decimal_value num"
    and c: "c = CHR ''k'' \<or> c = CHR ''K''"
    and ws: "list_all (\<lambda>p. p \<in> set white_space) ps" "ps \<noteq> []"
  shows "followers_cell (num @ c # concat ps @ ''followers'')
      = f64_to_i32 (f64_mul_1000 (str_to_f64 num))"
proof -
  let ?raw = "num @ c # concat ps @ ''followers''"
  let ?x = "f64_mul_1000 (str_to_f64 num)"
  from d num have "extract_number ?raw = map_option fst (match_number ?raw)"
    using extract_number_at_start [OF d, of "t @ c # concat ps @ ''followers''"] by simp
  with m have th: "thousands ?raw = Some ?x" by (simp add: thousands_def)
  show ?thesis
  proof (cases "f64_to_i32 ?x")
    case None
    with th show ?thesis by (simp add: followers_cell_def)
  next
    case (Some n)
    note nn = thousands_nonneg [OF nonneg Some]
    from d num have "?raw \<noteq> []" by simp
    with match_k_followers_whole [OF m c ws]
    have "replace_k_followers (i32_to_str n) ?raw = i32_to_str n"
      by (simp add: replace_k_followers_at_start)
    moreover from nn(1) have "followers_text (i32_to_str n) = i32_to_str n"
      by (simp add: i32_to_str_def followers_text_digits digits_of_ok)
    ultimately show ?thesis
      using th Some nn by (simp add: followers_cell_def str_to_i32_i32_to_str)
  qed
qed

lemma followers_cell_unmatched:
  assumes "\<And>v. replace_k_followers v raw = raw" and "followers_text raw = ds"
    and "list_all is_digit ds" and "ds \<noteq> []" and "followers_cell raw \<noteq> None"
  shows "followers_cell raw = Some (dec_val ds)"
proof -
  from assms(1,2) have "followers_cell raw = None \<or> followers_cell raw = str_to_i32 ds"
    by (auto simp: followers_cell_def split: option.splits)
  with assms(5) show ?thesis
    by (auto simp: str_to_i32_digits [OF assms(3,4)] split: if_splits)
qed

lemma truncated_product:
  assumes "f64_to_i32 x = Some n"
  shows "\<exists>a. x = Finite a \<and> n = \<lfloor>a\<rfloor> \<and> (frac a < 1 / 2 \<longrightarrow> n = round a)"
proof -
  from assms obtain a where a: "x = Finite a" and n: "n = \<lfloor>a\<rfloor>"
    by (auto simp: f64_to_i32_def split: f64.splits if_splits)
  have "round a = \<lfloor>a\<rfloor>" if "frac a < 1 / 2"
  proof -
    from that have "of_int \<lfloor>a\<rfloor> \<le> a + 1 / 2" and "a + 1 / 2 < of_int \<lfloor>a\<rfloor> + 1"
      by (simp_all add: frac_def) linarith+
    then show ?thesis by (simp add: round_def floor_unique)
  qed
  with a n show ?thesis by simp
qed

text \<open>
  Claim C1, as amended. In a frame that is cleaned successfully: a followers text
  that is a number, \<open>k\<close> or \<open>K\<close>, white space and ``followers'' gives the product of the
  number and 1000 in double precision, rounded, whenever the fraction of that product
  is below one half, as it is when the product is whole; digits followed by
  `` followers'' or `` follower'' give the value of the digits; digits, one comma,
  digits and that word give the value of the digits without the comma.
\<close>

theorem followers_count_cases:
  assumes "review_cleaning review = Inr df" and "k < length review"
    and "list_all is_digit ds" and "ds \<noteq> []" and "list_all is_digit fs" and "fs \<noteq> []"
    and "list_all is_digit es"
    and "c = CHR ''k'' \<or> c = CHR ''K''"
    and "list_all (\<lambda>p. p \<in> set white_space) ps" and "ps \<noteq> []"
    and "w = '' followers'' \<or> w = '' follower''"
  shows "(followers_amount (profile_of (review ! k)) = ds @ c # concat ps @ ''followers'' \<longrightarrow>
            (\<exists>a. f64_mul_1000 (str_to_f64 ds) = Finite a \<and>
                 (frac a < 1 / 2 \<longrightarrow> c_followers (df ! k) = Some (round a)))) \<and>
         (followers_amount (profile_of (review ! k))
            = ds @ ''.'' @ fs @ c # concat ps @ ''followers'' \<longrightarrow>
            (\<exists>a. f64_mul_1000 (str_to_f64 (ds @ ''.'' @ fs)) = Finite a \<and>
                 (frac a < 1 / 2 \<longrightarrow> c_followers (df ! k) = Some (round a)))) \<and>
         (followers_amount (profile_of (review ! k)) = ds @ w \<longrightarrow>
            c_followers (df ! k) = Some (dec_val ds)) \<and>
         (followers_amount (profile_of (review ! k)) = ds @ '','' @ es @ w \<longrightarrow>
            c_followers (df ! k) = Some (dec_val (ds @ es)))"
proof -
  let ?raw = "followers_amount (profile_of (review ! k))"
  have cell: "c_followers (df ! k) = followers_cell ?raw"
    using review_cleaning_row(4) [OF assms(1,2)] .
  have some: "followers_cell ?raw \<noteq> None"
    using review_cleaning_row(9) [OF assms(1,2)] cell by simp
  have nd: "\<not> is_digit c" "c \<noteq> CHR ''.''"
    using assms(8) by (auto simp: is_digit_def)
  have a: "followers_cell (ds @ c # concat ps @ ''followers'')
      = f64_to_i32 (f64_mul_1000 (str_to_f64 ds))"
  proof (rule followers_cell_k [where t = "[]"])
    show "match_number (ds @ c # concat ps @ ''followers'') = Some (ds, c # concat ps @ ''followers'')"
      using assms(3,4) nd by (rule match_number_int)
    show "0 \<le> decimal_value ds"
      using assms(3) by (simp add: decimal_value_int dec_val_nonneg)
  qed (use assms in simp_all)
  have b: "followers_cell ((ds @ ''.'' @ fs) @ c # concat ps @ ''followers'')
      = f64_to_i32 (f64_mul_1000 (str_to_f64 (ds @ ''.'' @ fs)))"
  proof (rule followers_cell_k [where t = "''.'' @ fs" and ds = ds])
    show "match_number ((ds @ ''.'' @ fs) @ c # concat ps @ ''followers'')
        = Some (ds @ ''.'' @ fs, c # concat ps @ ''followers'')"
      using match_number_frac [OF assms(3,4,5,6) nd(1)] by simp
    show "0 \<le> decimal_value (ds @ ''.'' @ fs)"
      using assms(3,5) decimal_value_frac [OF assms(3), of fs]
      by (simp add: dec_val_nonneg)
  qed (use assms in simp_all)
  have k1: "\<exists>a. f64_mul_1000 (str_to_f64 ds) = Finite a \<and>
      (frac a < 1 / 2 \<longrightarrow> c_followers (df ! k) = Some (round a))"
    if "?raw = ds @ c # concat ps @ ''followers''"
  proof -
    from that a some cell obtain n where n: "f64_to_i32 (f64_mul_1000 (str_to_f64 ds)) = Some n"
      and c: "c_followers (df ! k) = Some n" by auto
    from truncated_product [OF n] c show ?thesis by auto
  qed
  have k2: "\<exists>a. f64_mul_1000 (str_to_f64 (ds @ ''.'' @ fs)) = Finite a \<and>
      (frac a < 1 / 2 \<longrightarrow> c_followers (df ! k) = Some (round a))"
    if "?raw = ds @ ''.'' @ fs @ c # concat ps @ ''followers''"
  proof -
    from that b some cell obtain n
      where n: "f64_to_i32 (f64_mul_1000 (str_to_f64 (ds @ ''.'' @ fs))) = Some n"
      and c: "c_followers (df ! k) = Some n" by auto
    from truncated_product [OF n] c show ?thesis by auto
  qed
  have p: "followers_cell ?raw = Some (dec_val ds)" if "?raw = ds @ w"
  proof (rule followers_cell_unmatched)
    show "replace_k_followers v ?raw = ?raw" for v
      using that replace_k_followers_plain [OF assms(3,11)] by simp
    show "followers_text ?raw = ds"
      using that assms(11) followers_text_plain [OF assms(3)] by auto
  qed (use assms some in simp_all)
  have q: "followers_cell ?raw = Some (dec_val (ds @ es))" if "?raw = ds @ '','' @ es @ w"
  proof (rule followers_cell_unmatched)
    show "replace_k_followers v ?raw = ?raw" for v
      using that replace_k_followers_comma [OF assms(3,7,11)] by simp
    show "followers_text ?raw = ds @ es"
      using that assms(11) followers_text_comma [OF assms(3,7)] by auto
  qed (use assms some in simp_all)
  from k1 k2 p q cell show ?thesis by simp
qed

lemma thousands_examples:
  "f64_mul_1000 (str_to_f64 ''1.5'') = Finite 1500"
  by code_simp

theorem followers_count_cases_witness:
  "\<exists>df. review_cleaning example_frame = Inr df \<and>
         c_followers (df ! 0) = Some 1500 \<and> c_followers (df ! 1) = Some 250 \<and>
         c_followers (df ! 2) = Some 1 \<and> c_followers (df ! 3) = Some 1234"
proof -
  obtain df where df: "review_cleaning example_frame = Inr df"
    using cleaning_examples by blast
  have d: "list_all is_digit ''1''" "list_all is_digit ''5''" "list_all is_digit ''250''"
    "list_all is_digit ''234''" "list_all (\<lambda>p. p \<in> set white_space) ['' '']"
    by (simp_all add: is_digit_def white_space_def)
  have v: "dec_val ''250'' = 250" "dec_val ''1'' = 1" "dec_val (''1'' @ ''234'') = 1234"
    by (simp_all add: dec_val_def digit_val_def)
  note t = followers_count_cases [OF df, where c = "CHR ''k''" and ps = "['' '']" and fs = "''5''"]
  have "\<exists>a. f64_mul_1000 (str_to_f64 (''1'' @ ''.'' @ ''5'')) = Finite a \<and>
      (frac a < 1 / 2 \<longrightarrow> c_followers (df ! 0) = Some (round a))"
    using t [of 0 "''1''" "''234''" "'' followers''"] d
    by (simp add: example_frame_def raw_review_def)
  moreover have "frac (1500 :: rat) < 1 / 2" and "round (1500 :: rat) = 1500"
    by (simp_all add: frac_def)
  ultimately have "c_followers (df ! 0) = Some 1500"
    using thousands_examples by auto
  moreover have "c_followers (df ! 1) = Some 250"
    using t [of 1 "''250''" "''234''" "'' followers''"] d v
    by (simp add: example_frame_def raw_review_def)
  moreover have "c_followers (df ! 2) = Some 1"
    using t [of 2 "''1''" "''234''" "'' follower''"] d v
    by (simp add: example_frame_def raw_review_def)
  moreover have "c_followers (df ! 3) = Some 1234"
    using t [of 3 "''1''" "''234''" "'' followers''"] d v
    by (simp add: example_frame_def raw_review_def)
  ultimately show ?thesis using df by blast
qed

text \<open>
  Claim C1 as stated fails in both branches: the double nearest to 32.3 times 1000 is
  just below 32300 and the cast drops its fraction, so ``32.3k followers'' gives 32299
  where rounding gives 32300; and in ``1,234,567 followers'' only the first comma is
  removed, so that the strict cast aborts the cleaning.
\<close>

theorem followers_round_counterexample:
  "review_cleaning [raw_review ''5 reviews'' ''32.3k followers'' unrated]
     = Inr [\<lparr>c_name = ''Reader'', c_reviews = Some 5, c_followers = Some 32299,
             c_rating = None, c_content = ''Text''\<rparr>] \<and>
   round (decimal_value ''32.3'' * 1000) = (32300 :: int) \<and>
   review_cleaning [raw_review ''5 reviews'' ''1,234,567 followers'' unrated]
     = Inl InvalidOperationError"
  by code_simp

subsection \<open>Counts that were not found\<close>


lemma thousands_not_found: "thousands ''Not Found'' = None"
  by code_simp











end
